theory Spec2Isabelle
  imports Complex_Main "HOL-Library.Sublist"
begin

section \<open>JavaScript values\<close>

text \<open>
  The engines pass invoices, rule results and output records around as untyped JavaScript
  values (\<^verbatim>\<open>any\<close>). They are modelled by one datatype. Numbers are JavaScript doubles in
  the source and reals here, so rounding, NaN and the infinities are outside the model.
  A string is a list of code units, restricted to the range 0..255. An object is the list
  of its own enumerable properties in the order \<^verbatim>\<open>Object.entries\<close> yields them;
  inherited properties are not modelled.
\<close>

datatype jsval =
    Undefined
  | Null
  | Bool bool
  | Num real
  | Str string
  | Arr "jsval list"
  | Obj "(string \<times> jsval) list"

type_synonym jsobj = "(string \<times> jsval) list"

text \<open>What JavaScript does on values outside the declared types.\<close>

datatype fault =
    TypeError   \<comment> \<open>the source throws a TypeError\<close>
  | Coercion    \<comment> \<open>the source coerces a non-number in arithmetic; not modelled\<close>

text \<open>Truthiness, as tested by \<^verbatim>\<open>if (v)\<close>, \<^verbatim>\<open>!v\<close>, \<^verbatim>\<open>a || b\<close> and \<^verbatim>\<open>a && b\<close>.\<close>

fun truthy :: "jsval \<Rightarrow> bool" where
  "truthy Undefined = False"
| "truthy Null = False"
| "truthy (Bool b) = b"
| "truthy (Num n) = (n \<noteq> 0)"
| "truthy (Str s) = (s \<noteq> [])"
| "truthy (Arr xs) = True"
| "truthy (Obj kvs) = True"

definition js_or :: "jsval \<Rightarrow> jsval \<Rightarrow> jsval" where
  "js_or a b = (if truthy a then a else b)"

text \<open>
  Strict equality \<^verbatim>\<open>===\<close>. Primitives compare by value; an array or object is equal
  only to itself, and the two sides compared in the source (a value of the system output
  and a value carried by a patch operation) are never the same reference.
\<close>

fun strict_eq :: "jsval \<Rightarrow> jsval \<Rightarrow> bool" where
  "strict_eq Undefined Undefined = True"
| "strict_eq Null Null = True"
| "strict_eq (Bool a) (Bool b) = (a = b)"
| "strict_eq (Num a) (Num b) = (a = b)"
| "strict_eq (Str a) (Str b) = (a = b)"
| "strict_eq _ _ = False"

subsection \<open>Strings\<close>

text \<open>\<^verbatim>\<open>s.includes(sub)\<close>: \<open>sub\<close> occurs in \<open>s\<close> as a contiguous substring.\<close>

fun str_includes :: "string \<Rightarrow> string \<Rightarrow> bool" where
  "str_includes [] sub = (sub = [])"
| "str_includes (c # cs) sub = (prefix sub (c # cs) \<or> str_includes cs sub)"

text \<open>
  \<^verbatim>\<open>toLowerCase\<close> on code units 0..255: the ASCII capitals and the capitals of the
  Latin-1 supplement (0xC0 to 0xDE without the multiplication sign 0xD7) move up by 32.
\<close>

definition upperCaseLetters :: string where
  "upperCaseLetters =
     ''ABCDEFGHIJKLMNOPQRSTUVWXYZ''
     @ [CHR 0xC0, CHR 0xC1, CHR 0xC2, CHR 0xC3, CHR 0xC4, CHR 0xC5, CHR 0xC6, CHR 0xC7,
        CHR 0xC8, CHR 0xC9, CHR 0xCA, CHR 0xCB, CHR 0xCC, CHR 0xCD, CHR 0xCE, CHR 0xCF,
        CHR 0xD0, CHR 0xD1, CHR 0xD2, CHR 0xD3, CHR 0xD4, CHR 0xD5, CHR 0xD6,
        CHR 0xD8, CHR 0xD9, CHR 0xDA, CHR 0xDB, CHR 0xDC, CHR 0xDD, CHR 0xDE]"

definition lowerCaseLetters :: string where
  "lowerCaseLetters =
     ''abcdefghijklmnopqrstuvwxyz''
     @ [CHR 0xE0, CHR 0xE1, CHR 0xE2, CHR 0xE3, CHR 0xE4, CHR 0xE5, CHR 0xE6, CHR 0xE7,
        CHR 0xE8, CHR 0xE9, CHR 0xEA, CHR 0xEB, CHR 0xEC, CHR 0xED, CHR 0xEE, CHR 0xEF,
        CHR 0xF0, CHR 0xF1, CHR 0xF2, CHR 0xF3, CHR 0xF4, CHR 0xF5, CHR 0xF6,
        CHR 0xF8, CHR 0xF9, CHR 0xFA, CHR 0xFB, CHR 0xFC, CHR 0xFD, CHR 0xFE]"

definition toLowerChar :: "char \<Rightarrow> char" where
  "toLowerChar c =
     (case map_of (zip upperCaseLetters lowerCaseLetters) c of
        Some lower \<Rightarrow> lower
      | None \<Rightarrow> c)"

definition toLowerCase :: "string \<Rightarrow> string" where
  "toLowerCase s = map toLowerChar s"

text \<open>White space as matched by \<^verbatim>\<open>\s\<close> and removed by \<^verbatim>\<open>trim\<close>, within 0..255.\<close>

definition is_ws :: "char \<Rightarrow> bool" where
  "is_ws c = ((of_char c :: nat) \<in> {9, 10, 11, 12, 13, 32, 160})"

definition trim :: "string \<Rightarrow> string" where
  "trim s = rev (dropWhile is_ws (rev (dropWhile is_ws s)))"

text \<open>\<^verbatim>\<open>s.split(/\s+/)\<close>: the pieces between maximal runs of white space.\<close>

function split_ws :: "string \<Rightarrow> string list" where
  "split_ws s =
     (case dropWhile (\<lambda>c. \<not> is_ws c) s of
        [] \<Rightarrow> [s]
      | r # rest \<Rightarrow> takeWhile (\<lambda>c. \<not> is_ws c) s # split_ws (dropWhile is_ws (r # rest)))"
  by pat_completeness auto
termination
proof (relation "measure length")
  show "wf (measure length)" by simp
next
  fix s :: string and r rest
  assume eq: "dropWhile (\<lambda>c. \<not> is_ws c) s = r # rest"
  then have "is_ws r"
    using hd_dropWhile [of "\<lambda>c. \<not> is_ws c" s] by auto
  then have "length (dropWhile is_ws (r # rest)) \<le> length rest"
    by (simp add: length_dropWhile_le)
  moreover have "length (r # rest) \<le> length s"
    using eq length_dropWhile_le [of "\<lambda>c. \<not> is_ws c" s] by simp
  ultimately show "(dropWhile is_ws (r # rest), s) \<in> measure length"
    by simp
qed

declare split_ws.simps [simp del]

text \<open>Decimal numerals, as in the property names of array elements.\<close>

fun dec_string :: "nat \<Rightarrow> string" where
  "dec_string n =
     (if n < 10 then [''0123456789'' ! n]
      else dec_string (n div 10) @ [''0123456789'' ! (n mod 10)])"

declare dec_string.simps [simp del]

definition is_digit :: "char \<Rightarrow> bool" where
  "is_digit c = (48 \<le> (of_char c :: nat) \<and> (of_char c :: nat) \<le> 57)"

definition digits_value :: "string \<Rightarrow> nat" where
  "digits_value ds = foldl (\<lambda>acc c. 10 * acc + ((of_char c :: nat) - 48)) 0 ds"

subsection \<open>Objects and Maps\<close>

text \<open>
  An own property key that is a canonical array index (a decimal numeral without leading
  zero, below \<open>2^32 - 1\<close>) is enumerated before all other keys, in ascending numeric
  order; the other keys follow in the order of their creation.
\<close>

definition array_index :: "string \<Rightarrow> nat option" where
  "array_index k =
     (if k \<noteq> [] \<and> list_all is_digit k \<and> (k = ''0'' \<or> hd k \<noteq> CHR ''0'')
         \<and> digits_value k < 2 ^ 32 - 1
      then Some (digits_value k) else None)"

definition obj_has :: "jsobj \<Rightarrow> string \<Rightarrow> bool" where
  "obj_has obj k = (map_of obj k \<noteq> None)"

definition obj_get :: "jsobj \<Rightarrow> string \<Rightarrow> jsval" where
  "obj_get obj k = (case map_of obj k of None \<Rightarrow> Undefined | Some v \<Rightarrow> v)"

fun obj_insert_index :: "nat \<Rightarrow> string \<Rightarrow> jsval \<Rightarrow> jsobj \<Rightarrow> jsobj" where
  "obj_insert_index n k v [] = [(k, v)]"
| "obj_insert_index n k v ((k', v') # rest) =
     (case array_index k' of
        Some m \<Rightarrow>
          if m < n then (k', v') # obj_insert_index n k v rest
          else (k, v) # (k', v') # rest
      | None \<Rightarrow> (k, v) # (k', v') # rest)"

text \<open>The assignment \<^verbatim>\<open>obj[k] = v\<close>.\<close>

definition obj_set :: "jsobj \<Rightarrow> string \<Rightarrow> jsval \<Rightarrow> jsobj" where
  "obj_set obj k v =
     (if obj_has obj k then map (\<lambda>(k', v'). if k' = k then (k', v) else (k', v')) obj
      else case array_index k of
             Some n \<Rightarrow> obj_insert_index n k v obj
           | None \<Rightarrow> obj @ [(k, v)])"

text \<open>
  The assignment \<^verbatim>\<open>obj[k] = v\<close> on an object created by the literal \<^verbatim>\<open>{}\<close>, for
  an arbitrary string \<open>k\<close>. The key \<^verbatim>\<open>__proto__\<close> reaches the accessor inherited from
  \<^verbatim>\<open>Object.prototype\<close>: no own property is created (the prototype is replaced when
  \<open>v\<close> is an object or null, and nothing happens otherwise), so the enumeration of the
  own properties is unchanged. Every other key creates or overwrites an own property.
\<close>

definition assign_member :: "jsobj \<Rightarrow> string \<Rightarrow> jsval \<Rightarrow> jsobj" where
  "assign_member obj k v = (if k = ''__proto__'' then obj else obj_set obj k v)"

text \<open>
  A JavaScript \<^verbatim>\<open>Map\<close> with string keys: entries in insertion order, \<^verbatim>\<open>set\<close> on
  an existing key keeps its position.
\<close>

definition map_get :: "(string \<times> 'a) list \<Rightarrow> string \<Rightarrow> 'a option" where
  "map_get m k = map_of m k"

definition map_set :: "(string \<times> 'a) list \<Rightarrow> string \<Rightarrow> 'a \<Rightarrow> (string \<times> 'a) list" where
  "map_set m k v =
     (if map_of m k \<noteq> None then map (\<lambda>(k', v'). if k' = k then (k', v) else (k', v')) m
      else m @ [(k, v)])"

text \<open>
  \<^verbatim>\<open>Object.entries(v)\<close> for a value: the properties of an object, the indexed elements
  of an array, the indexed characters of a string, nothing for a number or boolean.
\<close>

fun indexed :: "nat \<Rightarrow> jsval list \<Rightarrow> jsobj" where
  "indexed i [] = []"
| "indexed i (x # xs) = (dec_string i, x) # indexed (Suc i) xs"

fun entries :: "jsval \<Rightarrow> jsobj" where
  "entries (Obj kvs) = kvs"
| "entries (Arr xs) = indexed 0 xs"
| "entries (Str s) = indexed 0 (map (\<lambda>c. Str [c]) s)"
| "entries _ = []"

subsection \<open>Platform operations\<close>

text \<open>A JSON Patch operation, as produced by the rfc6902 library.\<close>

datatype patch_kind = Add | Remove | Replace | Move | Copy | Test

record PatchOperation =
  pop_op :: patch_kind
  pop_path :: string
  pop_value :: jsval
  pop_from :: "string option"

text \<open>
  The formatting of numbers, hashing, JSON serialisation, regular expressions, the
  json-logic-js interpreter and the rfc6902 differ are not part of the repository; the
  functions take them from a record of platform operations.
  \<^item> \<open>numToString\<close>: \<^verbatim>\<open>Number.prototype.toString\<close>;
  \<^item> \<open>toFixed2\<close>: \<^verbatim>\<open>n.toFixed(2)\<close>;
  \<^item> \<open>sha256hex\<close>: \<^verbatim>\<open>crypto.createHash('sha256').update(s).digest('hex')\<close>;
  \<^item> \<open>jsonStringify\<close>: \<^verbatim>\<open>JSON.stringify\<close>;
  \<^item> \<open>newRegExp\<close>: \<^verbatim>\<open>new RegExp(pattern, 'i')\<close>, \<open>None\<close> when it throws a
    SyntaxError, otherwise the matcher: \<open>None\<close> for no match, else the match array
    (element 0 the whole match, unmatched groups \<open>Undefined\<close>);
  \<^item> \<open>jsonLogicApply\<close>: \<^verbatim>\<open>jsonLogic.apply(rule, data)\<close>, \<open>None\<close> when it throws;
  \<^item> \<open>createPatch\<close>: \<^verbatim>\<open>createPatch(original, modified)\<close> of rfc6902.
\<close>

record platform =
  numToString :: "real \<Rightarrow> string"
  toFixed2 :: "real \<Rightarrow> string"
  sha256hex :: "string \<Rightarrow> string"
  jsonStringify :: "jsval \<Rightarrow> string"
  newRegExp :: "string \<Rightarrow> (string \<Rightarrow> jsval list option) option"
  jsonLogicApply :: "jsval \<Rightarrow> jsval \<Rightarrow> jsval option"
  createPatch :: "jsval \<Rightarrow> jsval \<Rightarrow> PatchOperation list"

subsection \<open>Conversion to string\<close>

fun join_with :: "string \<Rightarrow> string list \<Rightarrow> string" where
  "join_with sep [] = []"
| "join_with sep [x] = x"
| "join_with sep (x # y # ys) = x @ sep @ join_with sep (y # ys)"

text \<open>\<^verbatim>\<open>String(v)\<close>, as applied by a template literal.\<close>

fun js_to_string :: "platform \<Rightarrow> jsval \<Rightarrow> string" where
  "js_to_string P Undefined = ''undefined''"
| "js_to_string P Null = ''null''"
| "js_to_string P (Bool b) = (if b then ''true'' else ''false'')"
| "js_to_string P (Num n) = numToString P n"
| "js_to_string P (Str s) = s"
| "js_to_string P (Arr xs) =
     join_with '','' (map (\<lambda>x. case x of Undefined \<Rightarrow> [] | Null \<Rightarrow> []
                                  | _ \<Rightarrow> js_to_string P x) xs)"
| "js_to_string P (Obj kvs) = ''[object Object]''"

section \<open>Timestamps and the confidence formula (cognitive engine)\<close>

text \<open>
  An ISO timestamp string is represented by the epoch milliseconds that
  \<^verbatim>\<open>new Date(s).getTime()\<close> yields for it.
\<close>

datatype outcome = ACCEPTED | REJECTED | MODIFIED

record HistoryEntry =
  h_invoiceId :: string
  h_outcome :: outcome
  h_timestamp :: int

record ResolutionMemory =
  ruleId :: string
  totalApplications :: nat
  acceptedCount :: nat
  rejectedCount :: nat
  lastUsed :: "int option"
  history :: "HistoryEntry list"

text \<open>\<^verbatim>\<open>daysBetween\<close> of utils/date.ts: whole days between two instants.\<close>

definition daysBetween :: "int \<Rightarrow> int \<Rightarrow> nat" where
  "daysBetween date1 date2 = nat (\<bar>date2 - date1\<bar> div (1000 * 60 * 60 * 24))"

text \<open>
  \<^verbatim>\<open>CognitiveEngine.calculateConfidence\<close>. The first argument is the value of
  \<^verbatim>\<open>getCurrentTimestamp()\<close> at the call; \<open>None\<close> for the resolution is a falsy
  \<^verbatim>\<open>resolution\<close>, \<open>None\<close> for the last use is a falsy \<^verbatim>\<open>lastUsed\<close>.
\<close>

definition calculateConfidence ::
  "int \<Rightarrow> real \<Rightarrow> ResolutionMemory option \<Rightarrow> int option \<Rightarrow> real" where
  "calculateConfidence now baseConfidence resolution lastUsedAt =
     (case resolution of
        None \<Rightarrow> baseConfidence * 0.8
      | Some r \<Rightarrow>
          if totalApplications r = 0 then baseConfidence * 0.8
          else
            let memoryConfidence =
                  (real (acceptedCount r) + 1) / (real (totalApplications r) + 2);
                decayFactor =
                  (case lastUsedAt of None \<Rightarrow> 1
                   | Some t \<Rightarrow> 0.99 ^ daysBetween t now);
                alpha = 0.6;
                finalConfidence = alpha * baseConfidence + (1 - alpha) * memoryConfidence
            in max 0.1 (finalConfidence * decayFactor))"

section \<open>Data model\<close>

datatype source = OCR | VENDOR_PATTERN | CORRECTION_RULE | HUMAN

record FieldConfidence =
  fc_field :: string
  fc_value :: jsval
  fc_confidence :: real
  fc_source :: source
  fc_ruleId :: "string option"
  fc_reasoning :: string

text \<open>The proposals are a \<^verbatim>\<open>Map<string, FieldConfidence>\<close>.\<close>

type_synonym proposals = "(string \<times> FieldConfidence) list"

record AuditEntry =
  ae_step :: string
  ae_action :: string
  ae_field :: "string option"
  ae_newValue :: jsval
  ae_reasoning :: string
  ae_confidence :: "real option"
  ae_timestamp :: int

datatype ruleType = REGEX | ANCHOR | POSITIONAL | FORMULA | MAP

record VendorPattern =
  vp_ruleType :: ruleType
  vp_logic :: jsval
  vp_confidence :: real
  vp_sampleEvidence :: "string option"
  vp_createdAt :: int
  vp_lastUsed :: "int option"

record VendorMemory =
  vm_id :: string
  vm_vendorName :: string
  vm_fingerprints :: "string list"
  vm_defaults :: "jsobj option"
  vm_patterns :: "(string \<times> VendorPattern) list"
  vm_createdAt :: int
  vm_updatedAt :: int

record CorrectionMemory =
  cm_id :: string
  cm_triggerCondition :: jsval
  cm_action :: jsval
  cm_description :: string
  cm_confidence :: real
  cm_decayFactor :: real
  cm_createdAt :: int
  cm_lastUsed :: "int option"

text \<open>The invoice is the JavaScript object the engines receive.\<close>

record ProcessingContext =
  ctx_invoice :: jsobj
  ctx_vendorMemory :: "VendorMemory option"
  ctx_correctionMemories :: "CorrectionMemory list"
  ctx_resolutionMemories :: "(string \<times> ResolutionMemory) list"
  ctx_auditTrail :: "AuditEntry list"

text \<open>
  The output contract: \<open>oc_fields\<close> is the spread \<^verbatim>\<open>...output\<close>; the members set
  explicitly after the spread are the other fields of the record.
\<close>

record OutputContract =
  oc_fields :: jsobj
  requiresHumanReview :: bool
  oc_reasoning :: string
  oc_confidence :: real
  oc_auditTrail :: "AuditEntry list"
  oc_processedAt :: int

section \<open>Memory store\<close>

text \<open>
  The two tables of the SQLite store that the claims depend on, each a map from its
  primary key to the row.
\<close>

record ProcessedInvoice =
  pi_invoiceId :: jsval
  pi_vendor :: jsval
  pi_invoiceNumber :: jsval
  pi_totalAmount :: jsval
  pi_processedAt :: int

record store =
  processed_invoices :: "string \<rightharpoonup> ProcessedInvoice"
  resolution_memories :: "string \<rightharpoonup> ResolutionMemory"

definition empty_store :: store where
  "empty_store = \<lparr>processed_invoices = Map.empty, resolution_memories = Map.empty\<rparr>"

definition saveResolutionMemory :: "store \<Rightarrow> ResolutionMemory \<Rightarrow> store" where
  "saveResolutionMemory s memory =
     s\<lparr>resolution_memories := (resolution_memories s)(ruleId memory \<mapsto> memory)\<rparr>"

definition getResolutionMemory :: "store \<Rightarrow> string \<Rightarrow> ResolutionMemory" where
  "getResolutionMemory s rid =
     (case resolution_memories s rid of
        None \<Rightarrow>
          \<lparr>ruleId = rid, totalApplications = 0, acceptedCount = 0, rejectedCount = 0,
           lastUsed = None, history = []\<rparr>
      | Some row \<Rightarrow> row)"

text \<open>\<^verbatim>\<open>history.slice(-100)\<close> keeps the last 100 elements.\<close>

definition slice_last :: "nat \<Rightarrow> 'a list \<Rightarrow> 'a list" where
  "slice_last n xs = drop (length xs - n) xs"

definition recordResolution :: "int \<Rightarrow> store \<Rightarrow> string \<Rightarrow> string \<Rightarrow> outcome \<Rightarrow> store" where
  "recordResolution now s rid invoiceId outc =
     (let memory = getResolutionMemory s rid;
          memory = memory\<lparr>totalApplications := totalApplications memory + 1\<rparr>;
          memory =
            (if outc = ACCEPTED then memory\<lparr>acceptedCount := acceptedCount memory + 1\<rparr>
             else if outc = REJECTED then memory\<lparr>rejectedCount := rejectedCount memory + 1\<rparr>
             else memory);
          memory = memory\<lparr>lastUsed := Some now\<rparr>;
          memory = memory\<lparr>history := history memory @
                     [\<lparr>h_invoiceId = invoiceId, h_outcome = outc, h_timestamp = now\<rparr>]\<rparr>;
          memory =
            (if length (history memory) > 100
             then memory\<lparr>history := slice_last 100 (history memory)\<rparr>
             else memory)
      in saveResolutionMemory s memory)"

definition generateInvoiceFingerprint ::
  "platform \<Rightarrow> jsval \<Rightarrow> jsval \<Rightarrow> jsval \<Rightarrow> jsval \<Rightarrow> string" where
  "generateInvoiceFingerprint P vendor invoiceNumber date totalAmount =
     (let data = js_to_string P vendor @ ''|'' @ js_to_string P invoiceNumber @ ''|''
                 @ js_to_string P (js_or date (Str [])) @ ''|''
                 @ js_to_string P (js_or totalAmount (Num 0))
      in sha256hex P data)"

definition isDuplicate :: "store \<Rightarrow> string \<Rightarrow> bool" where
  "isDuplicate s fingerprint = (processed_invoices s fingerprint \<noteq> None)"

definition recordProcessedInvoice ::
  "int \<Rightarrow> store \<Rightarrow> string \<Rightarrow> jsval \<Rightarrow> jsval \<Rightarrow> jsval \<Rightarrow> jsval \<Rightarrow> store" where
  "recordProcessedInvoice now s fingerprint invoiceId vendor invoiceNumber totalAmount =
     s\<lparr>processed_invoices := (processed_invoices s)(fingerprint \<mapsto>
         \<lparr>pi_invoiceId = invoiceId, pi_vendor = vendor, pi_invoiceNumber = invoiceNumber,
          pi_totalAmount = js_or totalAmount Null, pi_processedAt = now\<rparr>)\<rparr>"

section \<open>Decision engine\<close>

text \<open>The first loop of \<^verbatim>\<open>decide\<close>: every proposal is written into the output.\<close>

definition applyProposals :: "proposals \<Rightarrow> jsobj \<times> real list \<Rightarrow> jsobj \<times> real list" where
  "applyProposals props start =
     foldl (\<lambda>(output, confidences) (field, proposal).
              (obj_set output field (fc_value proposal),
               confidences @ [fc_confidence proposal])) start props"

definition fillableFields :: "string list" where
  "fillableFields =
     [''date'', ''serviceDate'', ''dueDate'', ''totalAmount'', ''taxAmount'',
      ''netAmount'', ''currency'', ''lineItems'', ''paymentTerms'', ''poNumber'']"

text \<open>The body of the second loop: fill a field from the original invoice.\<close>

definition fillField :: "jsobj \<Rightarrow> jsobj \<times> real list \<Rightarrow> string \<Rightarrow> jsobj \<times> real list" where
  "fillField invoice acc field =
     (case acc of (output, confidences) \<Rightarrow>
        if \<not> obj_has output field \<and> obj_get invoice field \<noteq> Undefined then
          (obj_set output field (obj_get invoice field),
           confidences @
             [if obj_get invoice field = Null \<or> obj_get invoice field = Undefined
              then 0.0 else 0.70])
        else (output, confidences))"

definition overallConfidenceOf :: "real list \<Rightarrow> real" where
  "overallConfidenceOf confidences =
     (if length confidences > 0
      then foldl (\<lambda>a b. a + b) 0 confidences / real (length confidences)
      else 0.0)"

text \<open>Lines 312 to 349 of \<^verbatim>\<open>decide\<close>: the merged output and the collected confidences.\<close>

definition mergeOutput :: "jsobj \<Rightarrow> proposals \<Rightarrow> jsobj \<times> real list" where
  "mergeOutput invoice props =
     (let output = [(''invoiceId'', obj_get invoice ''id''),
                    (''vendor'', obj_get invoice ''vendor''),
                    (''invoiceNumber'', obj_get invoice ''invoiceNumber'')]
      in foldl (fillField invoice) (applyProposals props (output, [])) fillableFields)"

record decision =
  required :: bool
  reasoning :: string

definition criticalFields :: "string list" where
  "criticalFields = [''totalAmount'', ''date'', ''vendor'']"

text \<open>Rule 3: the first critical field that is falsy or proposed with confidence below 0.90.\<close>

fun firstCritical :: "proposals \<Rightarrow> jsobj \<Rightarrow> string list \<Rightarrow> string option" where
  "firstCritical props output [] = None"
| "firstCritical props output (field # rest) =
     (if \<not> truthy (obj_get output field)
         \<or> (case map_get props field of
               Some proposal \<Rightarrow> fc_confidence proposal < 0.90
             | None \<Rightarrow> False)
      then Some field
      else firstCritical props output rest)"

text \<open>
  Rule 5. \<^verbatim>\<open>item.amount || 0\<close> added to a numeric sum: a missing or falsy amount counts 0,
  \<^verbatim>\<open>true\<close> counts 1, a member access on \<^verbatim>\<open>null\<close> or \<^verbatim>\<open>undefined\<close> throws, and a
  string, array or object would turn the sum into a string.
\<close>

fun itemAmount :: "jsval \<Rightarrow> fault + real" where
  "itemAmount Undefined = Inl TypeError"
| "itemAmount Null = Inl TypeError"
| "itemAmount (Obj kvs) =
     (case obj_get kvs ''amount'' of
        Num a \<Rightarrow> Inr a
      | Bool b \<Rightarrow> Inr (if b then 1 else 0)
      | Undefined \<Rightarrow> Inr 0
      | Null \<Rightarrow> Inr 0
      | Str t \<Rightarrow> if t = [] then Inr 0 else Inl Coercion
      | _ \<Rightarrow> Inl Coercion)"
| "itemAmount _ = Inr 0"

fun lineItemSumFrom :: "real \<Rightarrow> jsval list \<Rightarrow> fault + real" where
  "lineItemSumFrom acc [] = Inr acc"
| "lineItemSumFrom acc (item # items) =
     (case itemAmount item of
        Inl e \<Rightarrow> Inl e
      | Inr a \<Rightarrow> lineItemSumFrom (acc + a) items)"

text \<open>\<^verbatim>\<open>v.length > 0\<close> for a truthy value \<open>v\<close>.\<close>

fun lengthPositive :: "jsval \<Rightarrow> fault + bool" where
  "lengthPositive (Arr xs) = Inr (length xs > 0)"
| "lengthPositive (Str t) = Inr (length t > 0)"
| "lengthPositive (Obj kvs) =
     (case obj_get kvs ''length'' of
        Num n \<Rightarrow> Inr (n > 0)
      | Bool b \<Rightarrow> Inr b
      | Undefined \<Rightarrow> Inr False
      | Null \<Rightarrow> Inr False
      | _ \<Rightarrow> Inl Coercion)"
| "lengthPositive _ = Inr False"

text \<open>\<^verbatim>\<open>Math.abs(total - sum)\<close> for a truthy total.\<close>

fun absDifference :: "jsval \<Rightarrow> real \<Rightarrow> fault + real" where
  "absDifference (Num t) lineItemSum = Inr \<bar>t - lineItemSum\<bar>"
| "absDifference (Bool b) lineItemSum = Inr \<bar>(if b then 1 else 0) - lineItemSum\<bar>"
| "absDifference _ lineItemSum = Inl Coercion"

text \<open>Rule 5 as a whole: the reasoning of the mismatch, if the rule fires.\<close>

definition amountMismatch :: "platform \<Rightarrow> jsobj \<Rightarrow> fault + string option" where
  "amountMismatch P output =
     (let lineItems = obj_get output ''lineItems''; totalAmount = obj_get output ''totalAmount''
      in if \<not> truthy lineItems then Inr None
         else case lengthPositive lineItems of
                Inl e \<Rightarrow> Inl e
              | Inr nonEmpty \<Rightarrow>
                  if \<not> nonEmpty \<or> \<not> truthy totalAmount then Inr None
                  else case lineItems of
                         Arr items \<Rightarrow>
                           (case lineItemSumFrom 0 items of
                              Inl e \<Rightarrow> Inl e
                            | Inr lineItemSum \<Rightarrow>
                                (case absDifference totalAmount lineItemSum of
                                   Inl e \<Rightarrow> Inl e
                                 | Inr diff \<Rightarrow>
                                     if diff > 0.01 \<and> lineItemSum > 0 then
                                       Inr (Some (''Total amount mismatch: invoice total (''
                                         @ js_to_string P totalAmount
                                         @ '') differs from line item sum (''
                                         @ numToString P lineItemSum @ '')''))
                                     else Inr None))
                       | _ \<Rightarrow> Inl TypeError)"

definition shouldEscalate ::
  "platform \<Rightarrow> ProcessingContext \<Rightarrow> jsobj \<Rightarrow> real \<Rightarrow> proposals \<Rightarrow> bool \<Rightarrow> fault + decision" where
  "shouldEscalate P context output overallConfidence props isDup =
     (if isDup then
        Inr \<lparr>required = True,
             reasoning = ''Duplicate invoice detected: matches fingerprint of previously processed invoice''\<rparr>
      else if ctx_vendorMemory context = None then
        Inr \<lparr>required = True,
             reasoning = ''New vendor: no existing memory found, requires initial human review''\<rparr>
      else case firstCritical props output criticalFields of
             Some field \<Rightarrow>
               Inr \<lparr>required = True,
                    reasoning = ''Critical field '' @ [CHR 0x22] @ field @ [CHR 0x22]
                                @ '' is missing or has low confidence''\<rparr>
           | None \<Rightarrow>
               if overallConfidence < 0.80 then
                 Inr \<lparr>required = True,
                      reasoning = ''Overall confidence ('' @ toFixed2 P overallConfidence
                                  @ '') below threshold (0.80)''\<rparr>
               else case amountMismatch P output of
                      Inl e \<Rightarrow> Inl e
                    | Inr (Some mismatch) \<Rightarrow> Inr \<lparr>required = True, reasoning = mismatch\<rparr>
                    | Inr None \<Rightarrow>
                        Inr \<lparr>required = False,
                             reasoning = ''High confidence automation: overall score ''
                                         @ toFixed2 P overallConfidence\<rparr>)"

text \<open>
  \<^verbatim>\<open>DecisionEngine.decide\<close>. The store is passed in and returned; \<open>now\<close> is the value of
  \<^verbatim>\<open>getCurrentTimestamp()\<close> during the call. A fault of rule 5 leaves the call before
  anything is recorded.
\<close>

definition decide ::
  "platform \<Rightarrow> int \<Rightarrow> store \<Rightarrow> ProcessingContext \<Rightarrow> proposals
   \<Rightarrow> fault + (OutputContract \<times> store)" where
  "decide P now s context props =
     (let invoice = ctx_invoice context;
          merged = mergeOutput invoice props;
          output = fst merged;
          overallConfidence = overallConfidenceOf (snd merged);
          fingerprint = generateInvoiceFingerprint P (obj_get invoice ''vendor'')
                          (obj_get invoice ''invoiceNumber'') (obj_get invoice ''date'')
                          (obj_get invoice ''totalAmount'');
          isDup = isDuplicate s fingerprint
      in case shouldEscalate P context output overallConfidence props isDup of
           Inl e \<Rightarrow> Inl e
         | Inr reviewDecision \<Rightarrow>
             let s' = (if \<not> isDup
                       then recordProcessedInvoice now s fingerprint (obj_get invoice ''id'')
                              (obj_get invoice ''vendor'') (obj_get invoice ''invoiceNumber'')
                              (obj_get invoice ''totalAmount'')
                       else s);
                 entry = \<lparr>ae_step = ''DECIDE'',
                          ae_action = (if required reviewDecision then ''ESCALATE''
                                       else ''AUTO_APPROVE''),
                          ae_field = None, ae_newValue = Undefined,
                          ae_reasoning = reasoning reviewDecision,
                          ae_confidence = Some overallConfidence,
                          ae_timestamp = now\<rparr>
             in Inr (\<lparr>oc_fields = output,
                      requiresHumanReview = required reviewDecision,
                      oc_reasoning = reasoning reviewDecision,
                      oc_confidence = overallConfidence,
                      oc_auditTrail = ctx_auditTrail context @ [entry],
                      oc_processedAt = now\<rparr>, s'))"

text \<open>
  The calls that reach the store between two decisions; a decision that faults leaves the
  store as it was.
\<close>

datatype store_call =
    Decide int ProcessingContext proposals
  | RecordResolution int string string outcome

fun run_call :: "platform \<Rightarrow> store \<Rightarrow> store_call \<Rightarrow> store" where
  "run_call P s (Decide now context props) =
     (case decide P now s context props of Inl e \<Rightarrow> s | Inr (contract, s') \<Rightarrow> s')"
| "run_call P s (RecordResolution now rid invoiceId outc) =
     recordResolution now s rid invoiceId outc"

definition run_calls :: "platform \<Rightarrow> store \<Rightarrow> store_call list \<Rightarrow> store" where
  "run_calls P s calls = foldl (run_call P) s calls"

section \<open>Rule evaluator\<close>

text \<open>\<^verbatim>\<open>executeRule\<close>: the interpreter runs inside \<^verbatim>\<open>try\<close>, an exception gives null.\<close>

definition executeRule :: "platform \<Rightarrow> jsval \<Rightarrow> jsval \<Rightarrow> jsval" where
  "executeRule P rule data =
     (case jsonLogicApply P rule data of
        Some result \<Rightarrow> result
      | None \<Rightarrow> Null)"

definition nth_or_undefined :: "jsval list \<Rightarrow> nat \<Rightarrow> jsval" where
  "nth_or_undefined xs i = (if i < length xs then xs ! i else Undefined)"

text \<open>
  The custom operation \<^verbatim>\<open>regexExtract\<close>. The group index is a natural number, 1 when
  the argument is omitted. A text that is not a string has no \<^verbatim>\<open>match\<close> method: the
  TypeError is caught like the SyntaxError of a malformed pattern.
\<close>

definition regexExtract :: "platform \<Rightarrow> jsval \<Rightarrow> jsval \<Rightarrow> nat option \<Rightarrow> jsval" where
  "regexExtract P pattern text groupIndex =
     (if \<not> truthy text \<or> \<not> truthy pattern then Null
      else case newRegExp P (js_to_string P pattern) of
             None \<Rightarrow> Null
           | Some regex \<Rightarrow>
               (case text of
                  Str t \<Rightarrow>
                    (case regex t of
                       Some match \<Rightarrow>
                         js_or (nth_or_undefined match
                                  (case groupIndex of None \<Rightarrow> 1 | Some i \<Rightarrow> i)) Null
                     | None \<Rightarrow> Null)
                | _ \<Rightarrow> Null))"

definition regexTest :: "platform \<Rightarrow> jsval \<Rightarrow> jsval \<Rightarrow> bool" where
  "regexTest P pattern text =
     (if \<not> truthy text \<or> \<not> truthy pattern then False
      else case newRegExp P (js_to_string P pattern) of
             None \<Rightarrow> False
           | Some regex \<Rightarrow> regex (js_to_string P text) \<noteq> None)"

text \<open>
  The custom operation \<^verbatim>\<open>mapDescription\<close>. A truthy description that is not a string
  has no \<^verbatim>\<open>toLowerCase\<close> method.
\<close>

definition mapDescription :: "jsval \<Rightarrow> jsval \<Rightarrow> fault + jsval" where
  "mapDescription description mapping =
     (if \<not> truthy description \<or> \<not> truthy mapping then Inr Null
      else case description of
             Str d \<Rightarrow>
               (let normalized = trim (toLowerCase d)
                in case find (\<lambda>(key, v). normalized = toLowerCase key) (entries mapping) of
                     Some (key, v) \<Rightarrow> Inr v
                   | None \<Rightarrow>
                       (case find (\<lambda>(key, v). str_includes normalized (toLowerCase key))
                               (entries mapping) of
                          Some (key, v) \<Rightarrow> Inr v
                        | None \<Rightarrow> Inr Null))
           | _ \<Rightarrow> Inl TypeError)"

definition createMapRule :: "jsobj \<Rightarrow> string \<Rightarrow> jsval" where
  "createMapRule mapping sourceField =
     Obj [(''mapDescription'', Arr [Obj [(''var'', Str sourceField)], Obj mapping])]"

section \<open>Cognitive engine\<close>

definition extractFieldFromAction :: "platform \<Rightarrow> jsval \<Rightarrow> string option" where
  "extractFieldFromAction P act =
     (let actionStr = jsonStringify P act
      in if str_includes actionStr ''taxAmount'' \<or> str_includes actionStr ''tax''
         then Some ''taxAmount''
         else if str_includes actionStr ''netAmount'' \<or> str_includes actionStr ''net''
         then Some ''netAmount''
         else if str_includes actionStr ''totalAmount'' \<or> str_includes actionStr ''total''
         then Some ''totalAmount''
         else None)"

text \<open>Step 1 of \<^verbatim>\<open>apply\<close>, for one entry of the vendor's patterns.\<close>

definition applyPattern ::
  "platform \<Rightarrow> int \<Rightarrow> ProcessingContext \<Rightarrow> VendorMemory
   \<Rightarrow> proposals \<times> AuditEntry list \<Rightarrow> string \<times> VendorPattern \<Rightarrow> proposals \<times> AuditEntry list" where
  "applyPattern P now context vendorMemory acc entry =
     (case (acc, entry) of ((props, trail), (field, pattern)) \<Rightarrow>
        let result = executeRule P (vp_logic pattern) (Obj (ctx_invoice context))
        in if result \<noteq> Null \<and> result \<noteq> Undefined then
             let patternId = vm_id vendorMemory @ ''-'' @ field;
                 resolution = map_get (ctx_resolutionMemories context) patternId;
                 confidence = calculateConfidence now (vp_confidence pattern) resolution
                                (vp_lastUsed pattern)
             in (map_set props field
                   \<lparr>fc_field = field, fc_value = result, fc_confidence = confidence,
                    fc_source = VENDOR_PATTERN, fc_ruleId = Some patternId,
                    fc_reasoning = ''Applied vendor pattern for '' @ [CHR 0x22]
                                   @ vm_vendorName vendorMemory @ [CHR 0x22]\<rparr>,
                 trail @
                   [\<lparr>ae_step = ''APPLY'', ae_action = ''VENDOR_PATTERN'', ae_field = Some field,
                     ae_newValue = result,
                     ae_reasoning = ''Extracted using vendor pattern (confidence: ''
                                    @ toFixed2 P confidence @ '')'',
                     ae_confidence = Some confidence, ae_timestamp = now\<rparr>])
           else (props, trail))"


text \<open>Step 3, for one global correction memory.\<close>

definition applyCorrection ::
  "platform \<Rightarrow> int \<Rightarrow> ProcessingContext
   \<Rightarrow> proposals \<times> AuditEntry list \<Rightarrow> CorrectionMemory \<Rightarrow> proposals \<times> AuditEntry list" where
  "applyCorrection P now context acc correction =
     (case acc of (props, trail) \<Rightarrow>
        let triggered = executeRule P (cm_triggerCondition correction) (Obj (ctx_invoice context))
        in if truthy triggered then
             let result = executeRule P (cm_action correction) (Obj (ctx_invoice context))
             in if result \<noteq> Null \<and> result \<noteq> Undefined then
                  (case extractFieldFromAction P (cm_action correction) of
                     Some field \<Rightarrow>
                       if (case map_get props field of
                             None \<Rightarrow> True
                           | Some existing \<Rightarrow> fc_confidence existing < cm_confidence correction)
                       then
                         let resolution = map_get (ctx_resolutionMemories context) (cm_id correction);
                             confidence = calculateConfidence now (cm_confidence correction)
                                            resolution (cm_lastUsed correction)
                         in (map_set props field
                               \<lparr>fc_field = field, fc_value = result, fc_confidence = confidence,
                                fc_source = CORRECTION_RULE, fc_ruleId = Some (cm_id correction),
                                fc_reasoning = cm_description correction\<rparr>,
                             trail @
                               [\<lparr>ae_step = ''APPLY'', ae_action = ''CORRECTION_RULE'',
                                 ae_field = Some field, ae_newValue = result,
                                 ae_reasoning = cm_description correction,
                                 ae_confidence = Some confidence, ae_timestamp = now\<rparr>])
                       else (props, trail)
                   | None \<Rightarrow> (props, trail))
                else (props, trail)
           else (props, trail))"


section \<open>Induction engine\<close>

text \<open>\<^verbatim>\<open>s.split('/')\<close> and \<^verbatim>\<open>s.replace(pattern, replacement)\<close> for a literal pattern.\<close>

fun split_on_from :: "char \<Rightarrow> string \<Rightarrow> string \<Rightarrow> string list" where
  "split_on_from sep piece [] = [piece]"
| "split_on_from sep piece (c # cs) =
     (if c = sep then piece # split_on_from sep [] cs
      else split_on_from sep (piece @ [c]) cs)"

definition split_on :: "char \<Rightarrow> string \<Rightarrow> string list" where
  "split_on sep s = split_on_from sep [] s"

fun replace_first :: "string \<Rightarrow> string \<Rightarrow> string \<Rightarrow> string" where
  "replace_first pat repl [] = (if pat = [] then repl else [])"
| "replace_first pat repl (c # cs) =
     (if prefix pat (c # cs) then repl @ drop (length pat) (c # cs)
      else c # replace_first pat repl cs)"

text \<open>\<^verbatim>\<open>value[part]\<close> on an object or array, and \<^verbatim>\<open>getFieldValue\<close>.\<close>

fun js_member :: "jsval \<Rightarrow> string \<Rightarrow> jsval" where
  "js_member (Obj kvs) part = obj_get kvs part"
| "js_member (Arr xs) part =
     (case array_index part of
        Some i \<Rightarrow> nth_or_undefined xs i
      | None \<Rightarrow> if part = ''length'' then Num (real (length xs)) else Undefined)"
| "js_member _ part = Undefined"

fun is_object :: "jsval \<Rightarrow> bool" where
  "is_object (Obj kvs) = True"
| "is_object (Arr xs) = True"
| "is_object _ = False"

fun walk_path :: "jsval \<Rightarrow> string list \<Rightarrow> jsval" where
  "walk_path v [] = v"
| "walk_path v (part # parts) =
     (if is_object v then walk_path (js_member v part) parts else Undefined)"

definition getFieldValue :: "jsval \<Rightarrow> string \<Rightarrow> jsval" where
  "getFieldValue obj path = walk_path obj (filter (\<lambda>p. p \<noteq> []) (split_on CHR ''/'' path))"

definition extractChanges :: "PatchOperation list \<Rightarrow> (string \<times> jsval) list" where
  "extractChanges patch =
     foldl (\<lambda>changes operation.
              if pop_op operation = Replace \<or> pop_op operation = Add
              then map_set changes (drop 1 (pop_path operation)) (pop_value operation)
              else changes) [] patch"

definition isDateField :: "string \<Rightarrow> bool" where
  "isDateField field = str_includes (toLowerCase field) ''date''"

definition isNumericField :: "string \<Rightarrow> bool" where
  "isNumericField field =
     list_ex (str_includes (toLowerCase field))
       [''amount'', ''price'', ''quantity'', ''tax'', ''total'', ''net'']"

text \<open>
  \<^verbatim>\<open>getDescriptionForSku\<close>: the leftmost \<^verbatim>\<open>lineItems/\<close> followed by digits gives the
  index of the line item whose description is returned.
\<close>

fun lineItemIndex :: "string \<Rightarrow> nat option" where
  "lineItemIndex [] = None"
| "lineItemIndex (c # cs) =
     (if prefix ''lineItems/'' (c # cs) \<and> takeWhile is_digit (drop 10 (c # cs)) \<noteq> []
      then Some (digits_value (takeWhile is_digit (drop 10 (c # cs))))
      else lineItemIndex cs)"

fun optional_index :: "jsval \<Rightarrow> nat \<Rightarrow> jsval" where
  "optional_index (Arr xs) i = nth_or_undefined xs i"
| "optional_index (Obj kvs) i = obj_get kvs (dec_string i)"
| "optional_index (Str t) i = (if i < length t then Str [t ! i] else Undefined)"
| "optional_index _ i = Undefined"

fun optional_member :: "jsval \<Rightarrow> string \<Rightarrow> jsval" where
  "optional_member (Obj kvs) k = obj_get kvs k"
| "optional_member _ k = Undefined"

definition getDescriptionForSku :: "string \<Rightarrow> jsobj \<Rightarrow> jsval" where
  "getDescriptionForSku field invoice =
     (case lineItemIndex field of
        None \<Rightarrow> Null
      | Some i \<Rightarrow>
          js_or (optional_member (optional_index (obj_get invoice ''lineItems'') i)
                   ''description'') Null)"

text \<open>\<^verbatim>\<open>induceMapping\<close>, strategy 3.\<close>

definition induceMapping ::
  "int \<Rightarrow> string \<Rightarrow> jsval \<Rightarrow> jsval \<Rightarrow> fault + VendorPattern option" where
  "induceMapping now field description sku =
     (if \<not> truthy description \<or> \<not> truthy sku then Inr None
      else case description of
             Str d \<Rightarrow>
               (let tokens = split_ws (toLowerCase d);
                    mapping = assign_member [] (toLowerCase d) sku;
                    mapping = foldl (\<lambda>m token. if length token > 3
                                                then assign_member m token sku else m)
                                mapping tokens
                in Inr (Some \<lparr>vp_ruleType = MAP,
                              vp_logic = createMapRule mapping
                                           (replace_first ''.sku'' ''.description'' field),
                              vp_confidence = 0.85,
                              vp_sampleEvidence = Some d,
                              vp_createdAt = now,
                              vp_lastUsed = None\<rparr>))
           | _ \<Rightarrow> Inl TypeError)"

text \<open>
  The strategies of induction.ts that synthesise regular expressions or rule identifiers.
  They depend on the regular-expression engine and on hashing, and are taken as given.
\<close>

record strategies =
  induceRegexForDate :: "string \<Rightarrow> jsval \<Rightarrow> jsval \<Rightarrow> fault + VendorPattern option"
  induceArithmeticFormula :: "string \<Rightarrow> real \<Rightarrow> jsobj \<Rightarrow> CorrectionMemory option"
  induceRegexForNumber :: "string \<Rightarrow> real \<Rightarrow> jsval \<Rightarrow> fault + VendorPattern option"
  induceRegexForPaymentTerms :: "jsval \<Rightarrow> jsval \<Rightarrow> fault + VendorPattern option"
  induceRegexForPO :: "jsval \<Rightarrow> jsval \<Rightarrow> fault + VendorPattern option"
  induceRegexForText :: "string \<Rightarrow> jsval \<Rightarrow> jsval \<Rightarrow> fault + VendorPattern option"

record InductionResult =
  vendorRules :: "(string \<times> VendorPattern) list"
  correctionRules :: "CorrectionMemory list"

definition pushVendorRule ::
  "InductionResult \<Rightarrow> string \<Rightarrow> fault + VendorPattern option \<Rightarrow> fault + InductionResult" where
  "pushVendorRule result field synthesised =
     (case synthesised of
        Inl e \<Rightarrow> Inl e
      | Inr None \<Rightarrow> Inr result
      | Inr (Some rule) \<Rightarrow> Inr (result\<lparr>vendorRules := vendorRules result @ [(field, rule)]\<rparr>))"

text \<open>The body of the loop of \<^verbatim>\<open>induceRules\<close> for a field that did change.\<close>

definition induceField ::
  "strategies \<Rightarrow> int \<Rightarrow> jsobj \<Rightarrow> string \<Rightarrow> jsval \<Rightarrow> InductionResult \<Rightarrow> fault + InductionResult" where
  "induceField S now systemOutput field newValue result =
     (let rawText = obj_get systemOutput ''rawText''
      in if isDateField field then
           pushVendorRule result field (induceRegexForDate S field newValue rawText)
         else if isNumericField field \<and> (case newValue of Num n \<Rightarrow> True | _ \<Rightarrow> False) then
           (case newValue of
              Num n \<Rightarrow>
                (case induceArithmeticFormula S field n systemOutput of
                   Some formulaRule \<Rightarrow>
                     Inr (result\<lparr>correctionRules := correctionRules result @ [formulaRule]\<rparr>)
                 | None \<Rightarrow> pushVendorRule result field (induceRegexForNumber S field n rawText))
            | _ \<Rightarrow> Inr result)
         else if str_includes field ''sku'' \<or> str_includes field ''Sku'' then
           (let description = getDescriptionForSku field systemOutput
            in if truthy description
               then pushVendorRule result field (induceMapping now field description newValue)
               else Inr result)
         else if str_includes field ''paymentTerms'' then
           pushVendorRule result field (induceRegexForPaymentTerms S newValue rawText)
         else if str_includes field ''poNumber'' then
           pushVendorRule result field (induceRegexForPO S newValue rawText)
         else
           pushVendorRule result field (induceRegexForText S field newValue rawText))"

fun induceChanges ::
  "strategies \<Rightarrow> int \<Rightarrow> jsobj \<Rightarrow> (string \<times> jsval) list \<Rightarrow> InductionResult
   \<Rightarrow> fault + InductionResult" where
  "induceChanges S now systemOutput [] result = Inr result"
| "induceChanges S now systemOutput ((field, newValue) # rest) result =
     (let oldValue = getFieldValue (Obj systemOutput) field
      in if strict_eq oldValue newValue then induceChanges S now systemOutput rest result
         else case induceField S now systemOutput field newValue result of
                Inl e \<Rightarrow> Inl e
              | Inr result' \<Rightarrow> induceChanges S now systemOutput rest result')"

definition induceRules ::
  "platform \<Rightarrow> strategies \<Rightarrow> int \<Rightarrow> jsobj \<Rightarrow> jsobj \<Rightarrow> fault + InductionResult" where
  "induceRules P S now systemOutput humanCorrection =
     (let result = \<lparr>vendorRules = [], correctionRules = []\<rparr>;
          patch = createPatch P (Obj systemOutput) (Obj humanCorrection)
      in if length patch = 0 then Inr result
         else induceChanges S now systemOutput (extractChanges patch) result)"

section \<open>The specification's reading of two rules\<close>

text \<open>
  The mean of the confidences as the specification words it: every fillable field without a
  proposal contributes 0.70 when the invoice has a non-null value for it and 0.0 otherwise.
\<close>

definition spec_fill_confidences :: "jsobj \<Rightarrow> proposals \<Rightarrow> real list" where
  "spec_fill_confidences invoice props =
     map (\<lambda>field. if obj_get invoice field \<noteq> Undefined \<and> obj_get invoice field \<noteq> Null
                   then 0.70 else 0.0)
       (filter (\<lambda>field. map_get props field = None) fillableFields)"

definition spec_confidence :: "jsobj \<Rightarrow> proposals \<Rightarrow> real" where
  "spec_confidence invoice props =
     (let collected = map (\<lambda>(field, proposal). fc_confidence proposal) props
                      @ spec_fill_confidences invoice props
      in if collected = [] then 0.0 else sum_list collected / real (length collected))"

text \<open>
  Rule 5 as the specification words it: line items present, total present, and the total
  differs from the sum of the line-item amounts by more than 0.01.
\<close>

definition spec_amount_of :: "jsval \<Rightarrow> real" where
  "spec_amount_of item =
     (case item of
        Obj kvs \<Rightarrow> (case obj_get kvs ''amount'' of Num a \<Rightarrow> a | _ \<Rightarrow> 0)
      | _ \<Rightarrow> 0)"

definition spec_amount_mismatch :: "jsobj \<Rightarrow> bool" where
  "spec_amount_mismatch output =
     (case (obj_get output ''lineItems'', obj_get output ''totalAmount'') of
        (Arr items, Num amount) \<Rightarrow> \<bar>amount - sum_list (map spec_amount_of items)\<bar> > 0.01
      | _ \<Rightarrow> False)"

section \<open>Auxiliary notions for the statements\<close>

text \<open>A line item of the declared type: an object whose amount is a number or missing.\<close>

fun hasNumericAmount :: "jsval \<Rightarrow> bool" where
  "hasNumericAmount (Obj kvs) =
     (case obj_get kvs ''amount'' of
        Num a \<Rightarrow> True | Undefined \<Rightarrow> True | Null \<Rightarrow> True | _ \<Rightarrow> False)"
| "hasNumericAmount _ = False"

text \<open>The decision carried by the result of \<^verbatim>\<open>decide\<close>.\<close>

definition decision_of :: "fault + (OutputContract \<times> store) \<Rightarrow> (bool \<times> string) option" where
  "decision_of r =
     (case r of Inl e \<Rightarrow> None
      | Inr (contract, s) \<Rightarrow> Some (requiresHumanReview contract, oc_reasoning contract))"

text \<open>
  Sample data for evaluating the functions: a platform whose hash is the identity and whose
  interpreter knows literals only, a known vendor, and an invoice whose total and date are
  proposed with confidence 0.95.
\<close>

definition example_platform :: platform where
  "example_platform =
     \<lparr>numToString = (\<lambda>n. ''#''),
      toFixed2 = (\<lambda>n. ''#.##''),
      sha256hex = (\<lambda>data. data),
      jsonStringify = (\<lambda>v. case v of Str t \<Rightarrow> [CHR 0x22] @ t @ [CHR 0x22] | _ \<Rightarrow> ''{}''),
      newRegExp = (\<lambda>pattern. None),
      jsonLogicApply = (\<lambda>rule data. case rule of Obj kvs \<Rightarrow> None | v \<Rightarrow> Some v),
      createPatch = (\<lambda>original modified. [])\<rparr>"

definition example_vendor :: VendorMemory where
  "example_vendor =
     \<lparr>vm_id = ''v-1'', vm_vendorName = ''Parts AG'', vm_fingerprints = [''parts ag''],
      vm_defaults = Some [], vm_patterns = [], vm_createdAt = 0, vm_updatedAt = 0\<rparr>"

definition example_proposal :: "string \<Rightarrow> jsval \<Rightarrow> real \<Rightarrow> FieldConfidence" where
  "example_proposal field v c =
     \<lparr>fc_field = field, fc_value = v, fc_confidence = c, fc_source = VENDOR_PATTERN,
      fc_ruleId = None, fc_reasoning = ''Applied vendor default value''\<rparr>"

definition example_proposals :: proposals where
  "example_proposals =
     [(''totalAmount'', example_proposal ''totalAmount'' (Num 100) 0.95),
      (''date'', example_proposal ''date'' (Str ''2024-01-10'') 0.95)]"

definition example_context :: "jsval list \<Rightarrow> ProcessingContext" where
  "example_context items =
     \<lparr>ctx_invoice =
        [(''id'', Str ''INV-B-007''), (''vendor'', Str ''Parts AG''),
         (''invoiceNumber'', Str ''B-007''), (''lineItems'', Arr items),
         (''rawText'', Str ''RECHNUNG'')],
      ctx_vendorMemory = Some example_vendor,
      ctx_correctionMemories = [],
      ctx_resolutionMemories = [],
      ctx_auditTrail = []\<rparr>"

definition example_item :: "real \<Rightarrow> jsval" where
  "example_item amount = Obj [(''description'', Str ''Service A''), (''amount'', Num amount)]"

text \<open>The confidence carried by the result of \<^verbatim>\<open>decide\<close>.\<close>

definition confidence_of :: "fault + (OutputContract \<times> store) \<Rightarrow> real option" where
  "confidence_of r = (case r of Inl e \<Rightarrow> None | Inr (contract, s) \<Rightarrow> Some (oc_confidence contract))"

text \<open>An invoice of an unknown vendor with a date and no other optional field.\<close>

definition dated_context :: ProcessingContext where
  "dated_context =
     \<lparr>ctx_invoice =
        [(''id'', Str ''INV-A-001''), (''vendor'', Str ''Supplier GmbH''),
         (''invoiceNumber'', Str ''A-001''), (''date'', Str ''2023-12-15''),
         (''rawText'', Str ''RECHNUNG'')],
      ctx_vendorMemory = None,
      ctx_correctionMemories = [],
      ctx_resolutionMemories = [],
      ctx_auditTrail = []\<rparr>"

text \<open>Proposals whose total amount is exactly 0.\<close>

definition zero_total_proposals :: proposals where
  "zero_total_proposals =
     [(''totalAmount'', example_proposal ''totalAmount'' (Num 0) 0.95),
      (''date'', example_proposal ''date'' (Str ''2024-01-10'') 0.95)]"

text \<open>
  The invoice A-001 of the demonstration data and a later invoice with another id, other
  line items and another raw text, but the same vendor, number, date and total.
\<close>

definition first_submission :: ProcessingContext where
  "first_submission =
     \<lparr>ctx_invoice =
        [(''id'', Str ''INV-A-001''), (''vendor'', Str ''Supplier GmbH''),
         (''invoiceNumber'', Str ''A-001''), (''date'', Str ''2023-12-15''),
         (''totalAmount'', Num 1000), (''rawText'', Str ''Rechnungsdatum: 15.12.2023'')],
      ctx_vendorMemory = None,
      ctx_correctionMemories = [],
      ctx_resolutionMemories = [],
      ctx_auditTrail = []\<rparr>"

definition second_submission :: ProcessingContext where
  "second_submission =
     \<lparr>ctx_invoice =
        [(''id'', Str ''INV-A-004''), (''vendor'', Str ''Supplier GmbH''),
         (''invoiceNumber'', Str ''A-001''), (''date'', Str ''2023-12-15''),
         (''totalAmount'', Num 1000), (''lineItems'', Arr [example_item 1000]),
         (''rawText'', Str ''Betrag: 1000.00 EUR'')],
      ctx_vendorMemory = Some example_vendor,
      ctx_correctionMemories = [],
      ctx_resolutionMemories = [],
      ctx_auditTrail = []\<rparr>"

text \<open>The fingerprint that \<^verbatim>\<open>decide\<close> computes for the invoice of a context.\<close>

definition fingerprintOf :: "platform \<Rightarrow> ProcessingContext \<Rightarrow> string" where
  "fingerprintOf P context =
     generateInvoiceFingerprint P (obj_get (ctx_invoice context) ''vendor'')
       (obj_get (ctx_invoice context) ''invoiceNumber'') (obj_get (ctx_invoice context) ''date'')
       (obj_get (ctx_invoice context) ''totalAmount'')"

text \<open>
  A sequence of \<^verbatim>\<open>recordResolution\<close> calls, each given by the time of the call, the rule
  id, the invoice id and the outcome.
\<close>

definition recordResolutions ::
  "store \<Rightarrow> (int \<times> string \<times> string \<times> outcome) list \<Rightarrow> store" where
  "recordResolutions s events =
     foldl (\<lambda>s (now, rid, invoiceId, outc). recordResolution now s rid invoiceId outc) s events"

definition historyEntryOf :: "int \<times> string \<times> string \<times> outcome \<Rightarrow> HistoryEntry" where
  "historyEntryOf event =
     (case event of (now, rid, invoiceId, outc) \<Rightarrow>
        \<lparr>h_invoiceId = invoiceId, h_outcome = outc, h_timestamp = now\<rparr>)"

text \<open>A global rule whose trigger and action are literals, and one whose trigger throws.\<close>

definition literal_correction :: CorrectionMemory where
  "literal_correction =
     \<lparr>cm_id = ''net_from_gross_19-0a1b2c3d'', cm_triggerCondition = Bool True,
      cm_action = Str ''netAmount'', cm_description = ''Calculate net amount from gross (19% VAT)'',
      cm_confidence = 0.90, cm_decayFactor = 0.95, cm_createdAt = 0, cm_lastUsed = None\<rparr>"

definition failing_correction :: CorrectionMemory where
  "failing_correction =
     \<lparr>cm_id = ''exclusive_vat_19-4e5f6a7b'',
      cm_triggerCondition = Obj [(''unknownOperation'', Arr [])],
      cm_action = Str ''taxAmount'', cm_description = ''Calculate 19% VAT from net amount'',
      cm_confidence = 0.90, cm_decayFactor = 0.95, cm_createdAt = 0, cm_lastUsed = None\<rparr>"

text \<open>
  Strategies that synthesise nothing, and a differ that reports the vendor as replaced by
  the same name and the PO number as removed.
\<close>

definition idle_strategies :: strategies where
  "idle_strategies =
     \<lparr>induceRegexForDate = (\<lambda>field v rawText. Inr None),
      induceArithmeticFormula = (\<lambda>field n invoice. None),
      induceRegexForNumber = (\<lambda>field n rawText. Inr None),
      induceRegexForPaymentTerms = (\<lambda>v rawText. Inr None),
      induceRegexForPO = (\<lambda>v rawText. Inr None),
      induceRegexForText = (\<lambda>field v rawText. Inr None)\<rparr>"

definition redundant_patch :: "PatchOperation list" where
  "redundant_patch =
     [\<lparr>pop_op = Replace, pop_path = ''/vendor'', pop_value = Str ''Parts AG'', pop_from = None\<rparr>,
      \<lparr>pop_op = Remove, pop_path = ''/poNumber'', pop_value = Undefined, pop_from = None\<rparr>]"




section \<open>Properties\<close>

subsection \<open>Confidence of a rule\<close>

lemma whole_days:
  "daysBetween t now = nat \<lfloor>\<bar>real_of_int now - real_of_int t\<bar> / (1000 * 60 * 60 * 24)\<rfloor>"
proof -
  have "\<bar>real_of_int now - real_of_int t\<bar> / (1000 * 60 * 60 * 24)
        = real_of_int \<bar>now - t\<bar> / real_of_int 86400000"
    by simp
  also have "\<lfloor>\<dots>\<rfloor> = \<bar>now - t\<bar> div 86400000"
    by (rule floor_divide_of_int_eq)
  finally show ?thesis
    by (simp add: daysBetween_def)
qed

text \<open>
  C3. With no resolution record, or one with zero applications, the confidence is exactly
  the base times 0.8. Otherwise it is the greater of 0.1 and the weighted sum of the base
  and the Laplace-smoothed acceptance rate, multiplied by the decay: 1 when the rule has no
  last use, else 0.99 to the power of the number of whole days (of 86 400 000 ms) between
  the last use and the time of the call. At fixed base, application count and last use the
  confidence never decreases when the accepted count grows.
\<close>

theorem calculateConfidence_formula_and_monotone:
  "calculateConfidence now b None lu = b * 0.8
   \<and> (totalApplications r = 0 \<longrightarrow> calculateConfidence now b (Some r) lu = b * 0.8)
   \<and> (totalApplications r \<noteq> 0 \<longrightarrow>
        calculateConfidence now b (Some r) None =
          max 0.1 (0.6 * b + 0.4 * ((real (acceptedCount r) + 1) / (real (totalApplications r) + 2)))
        \<and> calculateConfidence now b (Some r) (Some t) =
          max 0.1 ((0.6 * b + 0.4 * ((real (acceptedCount r) + 1) / (real (totalApplications r) + 2)))
                   * 0.99 ^ nat \<lfloor>\<bar>real_of_int now - real_of_int t\<bar> / (1000 * 60 * 60 * 24)\<rfloor>))
   \<and> (a \<le> a' \<longrightarrow>
        calculateConfidence now b (Some (r\<lparr>acceptedCount := a\<rparr>)) lu
        \<le> calculateConfidence now b (Some (r\<lparr>acceptedCount := a'\<rparr>)) lu)"
proof -
  define D where "D = (case lu of None \<Rightarrow> (1::real) | Some t \<Rightarrow> 0.99 ^ daysBetween t now)"
  define F where
    "F = (\<lambda>x::nat. (0.6 * b + 0.4 * ((real x + 1) / (real (totalApplications r) + 2))) * D)"
  have D_nonneg: "0 \<le> D"
    unfolding D_def by (cases lu) simp_all
  have eq: "calculateConfidence now b (Some (r\<lparr>acceptedCount := x\<rparr>)) lu = max 0.1 (F x)"
    if "totalApplications r \<noteq> 0" for x
    using that by (cases lu) (simp_all add: calculateConfidence_def Let_def F_def D_def mult.commute)
  have zero: "calculateConfidence now b (Some (r\<lparr>acceptedCount := x\<rparr>)) lu = b * 0.8"
    if "totalApplications r = 0" for x
    using that by (simp add: calculateConfidence_def)
  have F_mono: "F a \<le> F a'" if le: "a \<le> a'"
  proof -
    have "(real a + 1) / (real (totalApplications r) + 2)
          \<le> (real a' + 1) / (real (totalApplications r) + 2)"
      using le by (simp add: divide_right_mono)
    then have "0.4 * ((real a + 1) / (real (totalApplications r) + 2))
          \<le> 0.4 * ((real a' + 1) / (real (totalApplications r) + 2))"
      by (rule mult_left_mono) simp
    then have "0.6 * b + 0.4 * ((real a + 1) / (real (totalApplications r) + 2))
          \<le> 0.6 * b + 0.4 * ((real a' + 1) / (real (totalApplications r) + 2))"
      by (rule add_left_mono)
    then show ?thesis
      unfolding F_def using D_nonneg by (rule mult_right_mono)
  qed
  have mono: "calculateConfidence now b (Some (r\<lparr>acceptedCount := a\<rparr>)) lu
      \<le> calculateConfidence now b (Some (r\<lparr>acceptedCount := a'\<rparr>)) lu" if le: "a \<le> a'"
  proof (cases "totalApplications r = 0")
    case True
    then show ?thesis
      unfolding zero [OF True] by simp
  next
    case False
    have "max 0.1 (F a) \<le> max 0.1 (F a')"
      using F_mono [OF le] by (rule max.mono [OF order_refl])
    then show ?thesis
      unfolding eq [OF False] .
  qed
  have unused: "calculateConfidence now b (Some r) None =
          max 0.1 (0.6 * b + 0.4 * ((real (acceptedCount r) + 1) / (real (totalApplications r) + 2)))"
    if "totalApplications r \<noteq> 0"
    using that by (simp add: calculateConfidence_def Let_def mult.commute)
  have used: "calculateConfidence now b (Some r) (Some t) =
          max 0.1 ((0.6 * b + 0.4 * ((real (acceptedCount r) + 1) / (real (totalApplications r) + 2)))
                   * 0.99 ^ nat \<lfloor>\<bar>real_of_int now - real_of_int t\<bar> / (1000 * 60 * 60 * 24)\<rfloor>)"
    if "totalApplications r \<noteq> 0"
    unfolding whole_days [symmetric]
    using that by (simp add: calculateConfidence_def Let_def mult.commute)
  have none: "calculateConfidence now b None lu = b * 0.8"
    by (simp add: calculateConfidence_def)
  have zero': "totalApplications r = 0 \<Longrightarrow> calculateConfidence now b (Some r) lu = b * 0.8"
    by (simp add: calculateConfidence_def)
  show ?thesis
    using none zero' unused used mono by blast
qed

theorem calculateConfidence_formula_and_monotone_witness:
  "totalApplications \<lparr>ruleId = ''v-1-date'', totalApplications = 8, acceptedCount = 3,
               rejectedCount = 1, lastUsed = None, history = []\<rparr> \<noteq> 0
   \<and> (3::nat) \<le> 7
   \<and> calculateConfidence 882000000 0.9
        (Some \<lparr>ruleId = ''v-1-date'', totalApplications = 8, acceptedCount = 3,
               rejectedCount = 1, lastUsed = None, history = []\<rparr>) None = 0.7
   \<and> calculateConfidence 882000000 0.9
        (Some \<lparr>ruleId = ''v-1-date'', totalApplications = 8, acceptedCount = 3,
               rejectedCount = 1, lastUsed = None, history = []\<rparr>) (Some 0) = 0.7 * 0.99 ^ 10
   \<and> calculateConfidence 882000000 0.9
        (Some \<lparr>ruleId = ''v-1-date'', totalApplications = 8, acceptedCount = 3,
               rejectedCount = 1, lastUsed = None, history = []\<rparr>) (Some 0)
      \<le> calculateConfidence 882000000 0.9
        (Some \<lparr>ruleId = ''v-1-date'', totalApplications = 8, acceptedCount = 7,
               rejectedCount = 1, lastUsed = None, history = []\<rparr>) (Some 0)"
proof -
  define r where "r = \<lparr>ruleId = ''v-1-date'', totalApplications = 8, acceptedCount = 3,
               rejectedCount = 1, lastUsed = None, history = []\<rparr>"
  have used: "totalApplications r \<noteq> 0" by (simp add: r_def)
  have le: "(3::nat) \<le> 7" by simp
  have days: "nat \<lfloor>\<bar>real_of_int 882000000 - real_of_int 0\<bar> / (1000 * 60 * 60 * 24)\<rfloor> = 10"
    by simp
  note formula = calculateConfidence_formula_and_monotone [of 882000000 "0.9" "Some 0" r 0 3 7]
  note shape = formula [THEN conjunct2, THEN conjunct2, THEN conjunct1, THEN mp, OF used]
  have floor_ok: "(0.1::real) \<le> 0.7 * 0.99 ^ 10"
    by (simp add: power_divide)
  have fresh: "calculateConfidence 882000000 0.9 (Some r) None = 0.7"
    unfolding shape [THEN conjunct1] by (simp add: r_def)
  have "calculateConfidence 882000000 0.9 (Some r) (Some 0) = max 0.1 (0.7 * 0.99 ^ 10)"
    unfolding shape [THEN conjunct2] days by (simp add: r_def)
  with floor_ok have decayed:
    "calculateConfidence 882000000 0.9 (Some r) (Some 0) = 0.7 * 0.99 ^ 10"
    by (simp only: max_absorb2)
  have mono: "calculateConfidence 882000000 0.9 (Some (r\<lparr>acceptedCount := 3\<rparr>)) (Some 0)
        \<le> calculateConfidence 882000000 0.9 (Some (r\<lparr>acceptedCount := 7\<rparr>)) (Some 0)"
    using formula [THEN conjunct2, THEN conjunct2, THEN conjunct2, THEN mp, OF le] .
  have same: "r\<lparr>acceptedCount := 3\<rparr> = r"
    by (simp add: r_def)
  show ?thesis
    using used le fresh decayed mono unfolding same
    by (simp only: r_def ResolutionMemory.update_convs simp_thms)
qed

subsection \<open>The escalation policy\<close>

lemma itemAmount_typed:
  "hasNumericAmount item \<Longrightarrow> itemAmount item = Inr (spec_amount_of item)"
  by (cases item) (auto simp: spec_amount_of_def split: jsval.splits)

lemma lineItemSumFrom_typed:
  "list_all hasNumericAmount items \<Longrightarrow>
   lineItemSumFrom acc items = Inr (acc + sum_list (map spec_amount_of items))"
  by (induction items arbitrary: acc) (simp_all add: itemAmount_typed)

lemma amountMismatch_typed:
  assumes "obj_get out ''lineItems'' = Arr items" "list_all hasNumericAmount items"
    and "obj_get out ''totalAmount'' = Num t"
  shows "amountMismatch P out =
     Inr (if items \<noteq> [] \<and> t \<noteq> 0 \<and> \<bar>t - sum_list (map spec_amount_of items)\<bar> > 0.01
            \<and> sum_list (map spec_amount_of items) > 0
          then Some (''Total amount mismatch: invoice total ('' @ numToString P t
                     @ '') differs from line item sum (''
                     @ numToString P (sum_list (map spec_amount_of items)) @ '')'')
          else None)"
  using assms by (cases "items = []") (simp_all add: amountMismatch_def Let_def lineItemSumFrom_typed)

lemma amountMismatch_absent:
  "\<not> truthy (obj_get out ''lineItems'') \<Longrightarrow> amountMismatch P out = Inr None"
  by (simp add: amountMismatch_def Let_def)

lemma firstCritical_critical:
  "firstCritical props out criticalFields =
     (let hit = (\<lambda>f. \<not> truthy (obj_get out f)
                  \<or> (case map_get props f of Some p \<Rightarrow> fc_confidence p < 0.90 | None \<Rightarrow> False))
      in if hit ''totalAmount'' then Some ''totalAmount''
         else if hit ''date'' then Some ''date''
         else if hit ''vendor'' then Some ''vendor'' else None)"
  by (simp add: criticalFields_def Let_def)

lemma decision_of_decide:
  "decision_of (decide P now s context props) =
     (case shouldEscalate P context (fst (mergeOutput (ctx_invoice context) props))
             (overallConfidenceOf (snd (mergeOutput (ctx_invoice context) props))) props
             (isDuplicate s (generateInvoiceFingerprint P (obj_get (ctx_invoice context) ''vendor'')
                (obj_get (ctx_invoice context) ''invoiceNumber'')
                (obj_get (ctx_invoice context) ''date'')
                (obj_get (ctx_invoice context) ''totalAmount''))) of
        Inl e \<Rightarrow> None
      | Inr d \<Rightarrow> Some (required d, reasoning d))"
  by (simp add: decide_def decision_of_def Let_def split: sum.splits)

lemma low_confidence_case:
  "(case x of Some p \<Rightarrow> fc_confidence p < c | None \<Rightarrow> False)
   = (\<exists>p. x = Some p \<and> fc_confidence p < c)"
  by (cases x) auto

lemma example_merge:
  "mergeOutput (ctx_invoice (example_context items)) example_proposals =
     ([(''invoiceId'', Str ''INV-B-007''), (''vendor'', Str ''Parts AG''),
       (''invoiceNumber'', Str ''B-007''), (''totalAmount'', Num 100),
       (''date'', Str ''2024-01-10''), (''lineItems'', Arr items)],
      [0.95, 0.95, 0.70])"
  by (simp add: mergeOutput_def example_context_def example_proposals_def example_proposal_def
      applyProposals_def fillableFields_def fillField_def obj_get_def obj_has_def obj_set_def
      array_index_def is_digit_def)

lemma example_not_duplicate:
  "\<not> isDuplicate empty_store fp"
  by (simp add: isDuplicate_def empty_store_def)

text \<open>
  C1 (as amended). \<^verbatim>\<open>decide\<close> tries the escalation rules in the fixed order duplicate
  fingerprint, unknown vendor, critical field (total amount, date, vendor, in this order)
  falsy or proposed with confidence below 0.90, overall confidence below 0.80, amount
  mismatch; the first rule that holds gives the reasoning, and without any the invoice is
  approved. On line items of the declared type the mismatch rule fires exactly when the
  list is not empty, the total differs from the sum of the amounts by more than 0.01, and
  that sum is positive.
\<close>

theorem decide_escalation_priority:
  "let invoice = ctx_invoice context;
       out = fst (mergeOutput invoice props);
       conf = overallConfidenceOf (snd (mergeOutput invoice props));
       dup = isDuplicate s (generateInvoiceFingerprint P (obj_get invoice ''vendor'')
               (obj_get invoice ''invoiceNumber'') (obj_get invoice ''date'')
               (obj_get invoice ''totalAmount''));
       known = (ctx_vendorMemory context \<noteq> None);
       hit = (\<lambda>f. \<not> truthy (obj_get out f)
                   \<or> (\<exists>p. map_get props f = Some p \<and> fc_confidence p < 0.90));
       critical = (\<lambda>f. ''Critical field '' @ [CHR 0x22] @ f @ [CHR 0x22]
                         @ '' is missing or has low confidence'');
       approve = (False, ''High confidence automation: overall score '' @ toFixed2 P conf);
       result = decision_of (decide P now s context props)
   in (dup \<longrightarrow> result = Some (True,
          ''Duplicate invoice detected: matches fingerprint of previously processed invoice''))
    \<and> (\<not> dup \<and> \<not> known \<longrightarrow> result = Some (True,
          ''New vendor: no existing memory found, requires initial human review''))
    \<and> (\<not> dup \<and> known \<and> hit ''totalAmount'' \<longrightarrow>
          result = Some (True, critical ''totalAmount''))
    \<and> (\<not> dup \<and> known \<and> \<not> hit ''totalAmount'' \<and> hit ''date'' \<longrightarrow>
          result = Some (True, critical ''date''))
    \<and> (\<not> dup \<and> known \<and> \<not> hit ''totalAmount'' \<and> \<not> hit ''date'' \<and> hit ''vendor'' \<longrightarrow>
          result = Some (True, critical ''vendor''))
    \<and> (\<not> dup \<and> known \<and> \<not> hit ''totalAmount'' \<and> \<not> hit ''date'' \<and> \<not> hit ''vendor''
         \<and> conf < 0.80 \<longrightarrow>
          result = Some (True, ''Overall confidence ('' @ toFixed2 P conf
                                 @ '') below threshold (0.80)''))
    \<and> (\<not> dup \<and> known \<and> \<not> hit ''totalAmount'' \<and> \<not> hit ''date'' \<and> \<not> hit ''vendor''
         \<and> \<not> conf < 0.80 \<longrightarrow>
          (\<forall>items t. obj_get out ''lineItems'' = Arr items \<and> list_all hasNumericAmount items
              \<and> obj_get out ''totalAmount'' = Num t \<longrightarrow>
             result = Some
               (if items \<noteq> [] \<and> \<bar>t - sum_list (map spec_amount_of items)\<bar> > 0.01
                   \<and> sum_list (map spec_amount_of items) > 0
                then (True, ''Total amount mismatch: invoice total ('' @ numToString P t
                            @ '') differs from line item sum (''
                            @ numToString P (sum_list (map spec_amount_of items)) @ '')'')
                else approve))
          \<and> (\<not> truthy (obj_get out ''lineItems'') \<longrightarrow> result = Some approve))"
proof -
  define out where "out = fst (mergeOutput (ctx_invoice context) props)"
  define conf where "conf = overallConfidenceOf (snd (mergeOutput (ctx_invoice context) props))"
  define dup where "dup = isDuplicate s (generateInvoiceFingerprint P
               (obj_get (ctx_invoice context) ''vendor'')
               (obj_get (ctx_invoice context) ''invoiceNumber'')
               (obj_get (ctx_invoice context) ''date'')
               (obj_get (ctx_invoice context) ''totalAmount''))"
  define hit where "hit = (\<lambda>f. \<not> truthy (obj_get out f)
                   \<or> (\<exists>p. map_get props f = Some p \<and> fc_confidence p < 0.90))"
  have res: "decision_of (decide P now s context props) =
     (case shouldEscalate P context out conf props dup of
        Inl e \<Rightarrow> None | Inr d \<Rightarrow> Some (required d, reasoning d))"
    unfolding out_def conf_def dup_def by (rule decision_of_decide)
  have crit: "firstCritical props out criticalFields =
      (if hit ''totalAmount'' then Some ''totalAmount''
       else if hit ''date'' then Some ''date''
       else if hit ''vendor'' then Some ''vendor'' else None)"
    by (simp only: firstCritical_critical Let_def hit_def low_confidence_case)
  have typed: "amountMismatch P out =
     Inr (if items \<noteq> [] \<and> \<bar>t - sum_list (map spec_amount_of items)\<bar> > 0.01
            \<and> sum_list (map spec_amount_of items) > 0
          then Some (''Total amount mismatch: invoice total ('' @ numToString P t
                     @ '') differs from line item sum (''
                     @ numToString P (sum_list (map spec_amount_of items)) @ '')'')
          else None)"
    if "obj_get out ''lineItems'' = Arr items" "list_all hasNumericAmount items"
       "obj_get out ''totalAmount'' = Num t" "\<not> hit ''totalAmount''" for items t
    using that amountMismatch_typed [of out items t P] by (auto simp: hit_def)
  have fold_hit: "(\<not> truthy (obj_get out f)
                   \<or> (\<exists>p. map_get props f = Some p \<and> fc_confidence p < 0.90)) = hit f" for f
    by (simp add: hit_def)
  show ?thesis
    unfolding Let_def out_def [symmetric] conf_def [symmetric] dup_def [symmetric]
      fold_hit res
    by (intro conjI impI allI)
       (simp_all add: shouldEscalate_def crit typed amountMismatch_absent del: not_None_eq)
qed

theorem decide_escalation_priority_witness:
  "decision_of (decide example_platform 0 empty_store (example_context [example_item 40])
                 example_proposals)
     = Some (True, ''Total amount mismatch: invoice total (#) differs from line item sum (#)'')"
proof -
  let ?out = "fst (mergeOutput (ctx_invoice (example_context [example_item 40])) example_proposals)"
  let ?conf = "overallConfidenceOf
         (snd (mergeOutput (ctx_invoice (example_context [example_item 40])) example_proposals))"
  have no_hit: "\<not> (\<not> truthy (obj_get ?out f)
                   \<or> (\<exists>p. map_get example_proposals f = Some p \<and> fc_confidence p < 0.90))"
    if "f = ''totalAmount'' \<or> f = ''date'' \<or> f = ''vendor''" for f
    using that unfolding example_merge
    by (auto simp: obj_get_def map_get_def example_proposals_def example_proposal_def)
  have prem: "\<not> isDuplicate empty_store
        (generateInvoiceFingerprint example_platform
           (obj_get (ctx_invoice (example_context [example_item 40])) ''vendor'')
           (obj_get (ctx_invoice (example_context [example_item 40])) ''invoiceNumber'')
           (obj_get (ctx_invoice (example_context [example_item 40])) ''date'')
           (obj_get (ctx_invoice (example_context [example_item 40])) ''totalAmount''))
     \<and> ctx_vendorMemory (example_context [example_item 40]) \<noteq> None
     \<and> \<not> (\<not> truthy (obj_get ?out ''totalAmount'')
            \<or> (\<exists>p. map_get example_proposals ''totalAmount'' = Some p \<and> fc_confidence p < 0.90))
     \<and> \<not> (\<not> truthy (obj_get ?out ''date'')
            \<or> (\<exists>p. map_get example_proposals ''date'' = Some p \<and> fc_confidence p < 0.90))
     \<and> \<not> (\<not> truthy (obj_get ?out ''vendor'')
            \<or> (\<exists>p. map_get example_proposals ''vendor'' = Some p \<and> fc_confidence p < 0.90))
     \<and> \<not> ?conf < 0.80"
  proof (intro conjI)
    show "\<not> ?conf < 0.80"
      unfolding example_merge by (simp add: overallConfidenceOf_def)
    show "ctx_vendorMemory (example_context [example_item 40]) \<noteq> None"
      by (simp add: example_context_def)
  qed (rule example_not_duplicate, (rule no_hit, simp)+)
  have items: "obj_get ?out ''lineItems'' = Arr [example_item 40]
       \<and> list_all hasNumericAmount [example_item 40]
       \<and> obj_get ?out ''totalAmount'' = Num 100"
    unfolding example_merge by (simp add: obj_get_def example_item_def)
  have sum: "sum_list (map spec_amount_of [example_item 40]) = 40"
    by (simp add: spec_amount_of_def example_item_def obj_get_def)
  note rule5 = decide_escalation_priority
            [of "example_context [example_item 40]" example_proposals empty_store
                example_platform 0, unfolded Let_def,
             THEN conjunct2, THEN conjunct2, THEN conjunct2, THEN conjunct2,
             THEN conjunct2, THEN conjunct2, THEN mp, OF prem,
             THEN conjunct1, THEN spec, THEN spec, THEN mp, OF items]
  show ?thesis
    unfolding rule5 sum by (simp add: example_platform_def example_item_def)
qed

text \<open>
  C1 as stated fails: with one line item of amount 0 and a total of 100 no earlier rule
  fires and the difference is 100, yet the invoice is approved, because the sum is not
  positive.
\<close>

theorem zero_line_item_sum_counterexample:
  "spec_amount_mismatch
     (fst (mergeOutput (ctx_invoice (example_context [example_item 0])) example_proposals))
   \<and> \<not> isDuplicate empty_store
         (generateInvoiceFingerprint example_platform (Str ''Parts AG'') (Str ''B-007'')
            Undefined Undefined)
   \<and> ctx_vendorMemory (example_context [example_item 0]) \<noteq> None
   \<and> firstCritical example_proposals
         (fst (mergeOutput (ctx_invoice (example_context [example_item 0])) example_proposals))
         criticalFields = None
   \<and> \<not> overallConfidenceOf
         (snd (mergeOutput (ctx_invoice (example_context [example_item 0])) example_proposals))
       < 0.80
   \<and> decision_of (decide example_platform 0 empty_store (example_context [example_item 0])
                     example_proposals)
     = Some (False, ''High confidence automation: overall score #.##'')"
  unfolding decision_of_decide example_merge
  by (simp add: example_not_duplicate spec_amount_mismatch_def spec_amount_of_def
      example_item_def obj_get_def criticalFields_def map_get_def example_proposals_def
      example_proposal_def overallConfidenceOf_def shouldEscalate_def example_context_def
      amountMismatch_def example_platform_def)

subsection \<open>Merging proposals and raw values\<close>

lemma map_of_replace:
  "map_of (map (\<lambda>(k', v'). if k' = k then (k', v) else (k', v')) obj) =
     (\<lambda>x. if x = k \<and> map_of obj k \<noteq> None then Some v else map_of obj x)"
  by (induction obj) (auto simp: fun_eq_iff)

lemma map_of_obj_insert_index:
  "map_of obj k = None \<Longrightarrow>
   map_of (obj_insert_index n k v obj) x = (if x = k then Some v else map_of obj x)"
  by (induction obj) (auto split: option.splits if_splits)

lemma map_of_obj_set: "map_of (obj_set obj k v) = (map_of obj)(k \<mapsto> v)"
proof (rule ext)
  fix x
  show "map_of (obj_set obj k v) x = ((map_of obj)(k \<mapsto> v)) x"
    by (cases "map_of obj k")
       (simp_all add: obj_set_def obj_has_def map_of_replace map_of_obj_insert_index
          map_add_def split: option.splits)
qed

lemma obj_get_obj_set: "obj_get (obj_set obj k v) k' = (if k' = k then v else obj_get obj k')"
  by (simp add: obj_get_def map_of_obj_set)

lemma obj_has_obj_set: "obj_has (obj_set obj k v) k' = (k' = k \<or> obj_has obj k')"
  by (simp add: obj_has_def map_of_obj_set)

lemma applyProposals_confidences:
  "snd (applyProposals props (out, cs)) = cs @ map (\<lambda>(field, proposal). fc_confidence proposal) props"
  unfolding applyProposals_def
  by (induction props arbitrary: out cs) (auto simp: case_prod_beta)

lemma applyProposals_has:
  "obj_has (fst (applyProposals props (out, cs))) k = (obj_has out k \<or> map_get props k \<noteq> None)"
  unfolding applyProposals_def map_get_def
  by (induction props arbitrary: out cs) (auto simp: obj_has_obj_set)

lemma fillField_has_other:
  "g \<noteq> f \<Longrightarrow> obj_has (fst (fillField invoice (out, cs) f)) g = obj_has out g"
  by (simp add: fillField_def obj_has_obj_set)

lemma fill_confidences:
  "distinct fs \<Longrightarrow>
   snd (foldl (fillField invoice) (out, cs) fs) =
     cs @ map (\<lambda>f. if obj_get invoice f = Null then 0 else 0.70)
            (filter (\<lambda>f. \<not> obj_has out f \<and> obj_get invoice f \<noteq> Undefined) fs)"
proof (induction fs arbitrary: out cs)
  case Nil
  then show ?case by simp
next
  case (Cons f fs)
  obtain out' cs' where step: "fillField invoice (out, cs) f = (out', cs')"
    by (cases "fillField invoice (out, cs) f")
  have same: "obj_has out' g = obj_has out g" if "g \<in> set fs" for g
    using fillField_has_other [of g f invoice out cs] that Cons.prems step by auto
  have filt: "filter (\<lambda>f. \<not> obj_has out' f \<and> obj_get invoice f \<noteq> Undefined) fs
            = filter (\<lambda>f. \<not> obj_has out f \<and> obj_get invoice f \<noteq> Undefined) fs"
    by (rule filter_cong) (simp_all add: same)
  have cs': "cs' = cs @ (if \<not> obj_has out f \<and> obj_get invoice f \<noteq> Undefined
                        then [if obj_get invoice f = Null then 0 else 0.70] else [])"
    using step by (auto simp: fillField_def split: if_splits)
  show ?case
    using Cons.IH [of out' cs'] Cons.prems
    by (simp add: step filt cs')
qed

lemma fill_get:
  "obj_get (fst (foldl (fillField invoice) (out, cs) fs)) f =
     (if f \<in> set fs \<and> \<not> obj_has out f \<and> obj_get invoice f \<noteq> Undefined
      then obj_get invoice f else obj_get out f)"
  by (induction fs arbitrary: out cs) (auto simp: fillField_def obj_get_obj_set obj_has_obj_set)

lemma fill_has:
  "obj_has (fst (foldl (fillField invoice) (out, cs) fs)) f =
     (obj_has out f \<or> (f \<in> set fs \<and> obj_get invoice f \<noteq> Undefined))"
  by (induction fs arbitrary: out cs) (auto simp: fillField_def obj_has_obj_set)

lemma foldl_plus: "foldl (\<lambda>a b. a + b) (a::real) cs = a + sum_list cs"
  by (induction cs arbitrary: a) simp_all

lemma overallConfidenceOf_mean:
  "overallConfidenceOf cs = (if cs = [] then 0 else sum_list cs / real (length cs))"
  by (simp add: overallConfidenceOf_def foldl_plus)

lemma distinct_fillableFields: "distinct fillableFields"
  by (simp add: fillableFields_def)

lemma proposed_has:
  "f \<in> set fillableFields \<Longrightarrow>
   obj_has (fst (applyProposals props
       ([(''invoiceId'', a), (''vendor'', b), (''invoiceNumber'', c)], []))) f
   = (map_get props f \<noteq> None)"
proof -
  assume "f \<in> set fillableFields"
  then have "\<not> obj_has [(''invoiceId'', a), (''vendor'', b), (''invoiceNumber'', c)] f"
    by (auto simp: obj_has_def fillableFields_def)
  then show ?thesis
    unfolding applyProposals_has by simp
qed

lemma decide_confidence:
  "decide P now s context props = Inr (contract, s') \<Longrightarrow>
   oc_confidence contract = overallConfidenceOf (snd (mergeOutput (ctx_invoice context) props))"
  by (auto simp: decide_def Let_def split: sum.splits)

text \<open>
  C4 (as amended). The confidences collected by \<^verbatim>\<open>decide\<close> are those of the proposals,
  followed by one value for every fillable field that no proposal covers and whose raw
  value is not undefined: 0.0 for null and 0.70 otherwise, the raw value being copied into
  the output. A fillable field that is absent from the invoice is not copied and adds no
  value. The confidence of the contract is the mean of the collected values, 0 if none.
\<close>

theorem decide_fill_and_mean:
  "let invoice = ctx_invoice context;
       merged = mergeOutput invoice props;
       uncovered = filter (\<lambda>f. map_get props f = None \<and> obj_get invoice f \<noteq> Undefined)
                     fillableFields;
       collected = map (\<lambda>(field, proposal). fc_confidence proposal) props
                   @ map (\<lambda>f. if obj_get invoice f = Null then 0 else 0.70) uncovered
   in snd merged = collected
    \<and> (\<forall>f \<in> set uncovered. obj_get (fst merged) f = obj_get invoice f)
    \<and> (\<forall>f \<in> set fillableFields.
          map_get props f = None \<and> obj_get invoice f = Undefined \<longrightarrow> \<not> obj_has (fst merged) f)
    \<and> (\<forall>contract s'. decide P now s context props = Inr (contract, s') \<longrightarrow>
          oc_confidence contract =
            (if collected = [] then 0 else sum_list collected / real (length collected)))"
proof -
  define invoice where "invoice = ctx_invoice context"
  define start where "start = applyProposals props
       ([(''invoiceId'', obj_get invoice ''id''), (''vendor'', obj_get invoice ''vendor''),
         (''invoiceNumber'', obj_get invoice ''invoiceNumber'')], [])"
  define uncovered where
    "uncovered = filter (\<lambda>f. map_get props f = None \<and> obj_get invoice f \<noteq> Undefined)
                     fillableFields"
  define collected where
    "collected = map (\<lambda>(field, proposal). fc_confidence proposal) props
                   @ map (\<lambda>f. if obj_get invoice f = Null then 0 else 0.70) uncovered"
  have merged: "mergeOutput invoice props = foldl (fillField invoice) (fst start, snd start) fillableFields"
    by (simp add: mergeOutput_def start_def)
  have has: "obj_has (fst start) f = (map_get props f \<noteq> None)" if "f \<in> set fillableFields" for f
    unfolding start_def using that by (rule proposed_has)
  have filt: "filter (\<lambda>f. \<not> obj_has (fst start) f \<and> obj_get invoice f \<noteq> Undefined) fillableFields
              = uncovered"
    unfolding uncovered_def by (rule filter_cong) (auto simp: has)
  have snd_start: "snd start = map (\<lambda>(field, proposal). fc_confidence proposal) props"
    by (simp add: start_def applyProposals_confidences)
  have c1: "snd (mergeOutput invoice props) = collected"
    unfolding merged fill_confidences [OF distinct_fillableFields] filt snd_start collected_def
    by simp
  have c2: "obj_get (fst (mergeOutput invoice props)) f = obj_get invoice f" if "f \<in> set uncovered" for f
    using that unfolding merged fill_get by (auto simp: uncovered_def has)
  have c3: "\<not> obj_has (fst (mergeOutput invoice props)) f"
    if "f \<in> set fillableFields" "map_get props f = None \<and> obj_get invoice f = Undefined" for f
    using that unfolding merged fill_has by (simp add: has)
  have c4: "oc_confidence contract =
            (if collected = [] then 0 else sum_list collected / real (length collected))"
    if "decide P now s context props = Inr (contract, s')" for contract s'
    using decide_confidence [OF that] c1 by (simp add: overallConfidenceOf_mean invoice_def)
  show ?thesis
    unfolding Let_def invoice_def [symmetric] uncovered_def [symmetric] collected_def [symmetric]
    using c1 c2 c3 c4 by blast
qed

lemma dated_merge:
  "mergeOutput (ctx_invoice dated_context) [] =
     ([(''invoiceId'', Str ''INV-A-001''), (''vendor'', Str ''Supplier GmbH''),
       (''invoiceNumber'', Str ''A-001''), (''date'', Str ''2023-12-15'')], [0.70])"
  by (simp add: mergeOutput_def dated_context_def applyProposals_def fillableFields_def
      fillField_def obj_get_def obj_has_def obj_set_def array_index_def is_digit_def)

lemma confidence_of_decide:
  "decision_of (decide P now s context props) \<noteq> None \<Longrightarrow>
   confidence_of (decide P now s context props)
     = Some (overallConfidenceOf (snd (mergeOutput (ctx_invoice context) props)))"
  unfolding decide_def decision_of_def confidence_of_def Let_def
  by (cases "shouldEscalate P context (fst (mergeOutput (ctx_invoice context) props))
             (overallConfidenceOf (snd (mergeOutput (ctx_invoice context) props))) props
             (isDuplicate s (generateInvoiceFingerprint P (obj_get (ctx_invoice context) ''vendor'')
                (obj_get (ctx_invoice context) ''invoiceNumber'')
                (obj_get (ctx_invoice context) ''date'')
                (obj_get (ctx_invoice context) ''totalAmount'')))") simp_all

lemma dated_decision:
  "decision_of (decide example_platform 0 empty_store dated_context [])
     = Some (True, ''New vendor: no existing memory found, requires initial human review'')"
  unfolding decision_of_decide
  by (simp add: shouldEscalate_def example_not_duplicate dated_context_def)

theorem decide_fill_and_mean_witness:
  "confidence_of (decide example_platform 0 empty_store dated_context []) = Some 0.70"
proof -
  obtain contract s' where
    ret: "decide example_platform 0 empty_store dated_context [] = Inr (contract, s')"
    using dated_decision by (auto simp: decision_of_def split: sum.splits)
  have uncovered: "filter (\<lambda>f. map_get [] f = None \<and> obj_get (ctx_invoice dated_context) f \<noteq> Undefined)
                     fillableFields = [''date'']"
    by (simp add: fillableFields_def dated_context_def obj_get_def map_get_def)
  have "oc_confidence contract = 0.70"
    using decide_fill_and_mean [of dated_context "[]" example_platform 0 empty_store] ret
    unfolding Let_def uncovered
    by (simp add: dated_context_def obj_get_def)
  then show ?thesis
    by (simp add: ret confidence_of_def)
qed

text \<open>
  C4 as stated fails: for an invoice with a date and nine absent fillable fields the
  contract's confidence is 0.70, where nine further values of 0.0 would give 0.07.
\<close>

theorem absent_fields_counterexample:
  "confidence_of (decide example_platform 0 empty_store dated_context []) = Some 0.70
   \<and> spec_confidence (ctx_invoice dated_context) [] = 0.07"
proof -
  have "confidence_of (decide example_platform 0 empty_store dated_context []) = Some 0.70"
    using confidence_of_decide [of example_platform 0 empty_store dated_context "[]"]
    by (simp add: dated_decision dated_merge overallConfidenceOf_def)
  moreover have "spec_confidence (ctx_invoice dated_context) [] = 0.07"
    by (simp add: spec_confidence_def spec_fill_confidences_def fillableFields_def
        dated_context_def obj_get_def map_get_def)
  ultimately show ?thesis by simp
qed

subsection \<open>Falsy critical fields\<close>

lemma firstCritical_falsy:
  "f \<in> set fs \<Longrightarrow> \<not> truthy (obj_get out f) \<Longrightarrow> firstCritical props out fs \<noteq> None"
  by (induction fs) auto

text \<open>
  C10. Whenever the total amount, the date or the vendor of the merged output is falsy
  (0, the empty string, null or absent), the contract requires human review; so an
  invoice whose total is exactly 0 is never approved automatically.
\<close>

theorem falsy_critical_field_requires_review:
  assumes "f \<in> set criticalFields"
    and "\<not> truthy (obj_get (fst (mergeOutput (ctx_invoice context) props)) f)"
  shows "map_option fst (decision_of (decide P now s context props)) = Some True"
proof -
  have "firstCritical props (fst (mergeOutput (ctx_invoice context) props)) criticalFields \<noteq> None"
    using assms by (rule firstCritical_falsy)
  then show ?thesis
    unfolding decision_of_decide
    by (auto simp: shouldEscalate_def)
qed

lemma zero_total_merge:
  "mergeOutput (ctx_invoice (example_context items)) zero_total_proposals =
     ([(''invoiceId'', Str ''INV-B-007''), (''vendor'', Str ''Parts AG''),
       (''invoiceNumber'', Str ''B-007''), (''totalAmount'', Num 0),
       (''date'', Str ''2024-01-10''), (''lineItems'', Arr items)],
      [0.95, 0.95, 0.70])"
  by (simp add: mergeOutput_def example_context_def zero_total_proposals_def example_proposal_def
      applyProposals_def fillableFields_def fillField_def obj_get_def obj_has_def obj_set_def
      array_index_def is_digit_def)

theorem falsy_critical_field_requires_review_witness:
  "''totalAmount'' \<in> set criticalFields
   \<and> obj_get (fst (mergeOutput (ctx_invoice (example_context [])) zero_total_proposals))
         ''totalAmount'' = Num 0
   \<and> map_option fst (decision_of
         (decide example_platform 0 empty_store (example_context []) zero_total_proposals))
       = Some True"
proof -
  have member: "''totalAmount'' \<in> set criticalFields"
    by (simp add: criticalFields_def)
  have zero: "obj_get (fst (mergeOutput (ctx_invoice (example_context [])) zero_total_proposals))
         ''totalAmount'' = Num 0"
    unfolding zero_total_merge by (simp add: obj_get_def)
  then have falsy: "\<not> truthy (obj_get
      (fst (mergeOutput (ctx_invoice (example_context [])) zero_total_proposals)) ''totalAmount'')"
    by simp
  show ?thesis
    using member zero falsy_critical_field_requires_review [OF member falsy] by simp
qed

subsection \<open>Duplicate detection\<close>

lemma decide_store:
  assumes "decide P now s context props = Inr (contract, s')"
  shows "isDuplicate s' (fingerprintOf P context)"
    and "isDuplicate s fp \<Longrightarrow> isDuplicate s' fp"
  using assms unfolding decide_def Let_def fingerprintOf_def
  by (cases "shouldEscalate P context (fst (mergeOutput (ctx_invoice context) props))
             (overallConfidenceOf (snd (mergeOutput (ctx_invoice context) props))) props
             (isDuplicate s (generateInvoiceFingerprint P (obj_get (ctx_invoice context) ''vendor'')
                (obj_get (ctx_invoice context) ''invoiceNumber'')
                (obj_get (ctx_invoice context) ''date'')
                (obj_get (ctx_invoice context) ''totalAmount'')))";
      auto simp: isDuplicate_def recordProcessedInvoice_def split: if_splits)+

lemma recordResolution_processed:
  "processed_invoices (recordResolution now s rid invoiceId outc) = processed_invoices s"
  by (simp add: recordResolution_def saveResolutionMemory_def Let_def)

lemma run_call_keeps:
  "isDuplicate s fp \<Longrightarrow> isDuplicate (run_call P s call) fp"
proof (cases call)
  case (Decide now ctxt props)
  assume dup: "isDuplicate s fp"
  show ?thesis
  proof (cases "decide P now s ctxt props")
    case (Inl e)
    with Decide dup show ?thesis by simp
  next
    case (Inr r)
    obtain contract s' where "r = (contract, s')" by (cases r)
    with Inr Decide decide_store(2) [of P now s ctxt props contract s' fp] dup
    show ?thesis by simp
  qed
next
  case (RecordResolution now rid invoiceId outc)
  assume "isDuplicate s fp"
  with RecordResolution show ?thesis
    by (simp add: isDuplicate_def recordResolution_processed)
qed

lemma run_calls_keep:
  "isDuplicate s fp \<Longrightarrow> isDuplicate (run_calls P s calls) fp"
  unfolding run_calls_def
  by (induction calls arbitrary: s) (simp_all add: run_call_keeps)

lemma decide_duplicate:
  "isDuplicate s (fingerprintOf P context) \<Longrightarrow>
   decision_of (decide P now s context props)
     = Some (True, ''Duplicate invoice detected: matches fingerprint of previously processed invoice'')"
  unfolding decision_of_decide fingerprintOf_def
  by (simp add: shouldEscalate_def)

lemma decide_records:
  assumes "decide P now s context props = Inr (contract, s')"
  shows "\<not> isDuplicate s (fingerprintOf P context) \<Longrightarrow>
           processed_invoices s' =
             (processed_invoices s)(fingerprintOf P context \<mapsto>
                \<lparr>pi_invoiceId = obj_get (ctx_invoice context) ''id'',
                 pi_vendor = obj_get (ctx_invoice context) ''vendor'',
                 pi_invoiceNumber = obj_get (ctx_invoice context) ''invoiceNumber'',
                 pi_totalAmount = js_or (obj_get (ctx_invoice context) ''totalAmount'') Null,
                 pi_processedAt = now\<rparr>)"
    and "isDuplicate s (fingerprintOf P context) \<Longrightarrow> s' = s"
  using assms unfolding decide_def Let_def fingerprintOf_def
  by (cases "shouldEscalate P context (fst (mergeOutput (ctx_invoice context) props))
             (overallConfidenceOf (snd (mergeOutput (ctx_invoice context) props))) props
             (isDuplicate s (generateInvoiceFingerprint P (obj_get (ctx_invoice context) ''vendor'')
                (obj_get (ctx_invoice context) ''invoiceNumber'')
                (obj_get (ctx_invoice context) ''date'')
                (obj_get (ctx_invoice context) ''totalAmount'')))";
      auto simp: recordProcessedInvoice_def)+

lemma amountMismatch_reasoning:
  "amountMismatch P output = Inr (Some mismatch) \<Longrightarrow>
   mismatch \<noteq> ''Duplicate invoice detected: matches fingerprint of previously processed invoice''"
  by (auto simp: amountMismatch_def Let_def split: if_splits sum.splits jsval.splits)

lemma shouldEscalate_other_rules:
  "shouldEscalate P context output overallConfidence props False = Inr d \<Longrightarrow>
   reasoning d \<noteq> ''Duplicate invoice detected: matches fingerprint of previously processed invoice''"
  by (auto simp: shouldEscalate_def dest: amountMismatch_reasoning
      split: if_splits option.splits sum.splits)

lemma first_occurrence_not_flagged:
  assumes "decide P now s context props = Inr (contract, s')"
    and "\<not> isDuplicate s (fingerprintOf P context)"
  shows "oc_reasoning contract
         \<noteq> ''Duplicate invoice detected: matches fingerprint of previously processed invoice''"
proof -
  from assms obtain d where
    d: "shouldEscalate P context (fst (mergeOutput (ctx_invoice context) props))
          (overallConfidenceOf (snd (mergeOutput (ctx_invoice context) props))) props False = Inr d"
    and "oc_reasoning contract = reasoning d"
    unfolding decide_def Let_def fingerprintOf_def
    by (cases "shouldEscalate P context (fst (mergeOutput (ctx_invoice context) props))
          (overallConfidenceOf (snd (mergeOutput (ctx_invoice context) props))) props False")
       auto
  with shouldEscalate_other_rules [OF d] show ?thesis by simp
qed

text \<open>
  C2. A call of \<^verbatim>\<open>decide\<close> that returns for an invoice A whose fingerprint is not yet
  recorded stores the row (fingerprint, invoice id, vendor, invoice number, total amount,
  time) whatever it decided, and does not itself give the duplicate reasoning; a call on a
  recorded fingerprint leaves the store as it is. So after the call the fingerprint of A
  is recorded, and every later call of \<^verbatim>\<open>decide\<close> on an invoice B with the same
  vendor, invoice number, date and total amount requires human review with the duplicate
  reasoning, whatever else differs in B and whatever calls reached the store in between.
\<close>

theorem duplicate_flagged_from_second_occurrence:
  assumes first: "decide P nowA s0 contextA propsA = Inr (contractA, s1)"
    and vendor: "obj_get (ctx_invoice contextB) ''vendor'' = obj_get (ctx_invoice contextA) ''vendor''"
    and number: "obj_get (ctx_invoice contextB) ''invoiceNumber''
                 = obj_get (ctx_invoice contextA) ''invoiceNumber''"
    and date: "obj_get (ctx_invoice contextB) ''date'' = obj_get (ctx_invoice contextA) ''date''"
    and total: "obj_get (ctx_invoice contextB) ''totalAmount''
                = obj_get (ctx_invoice contextA) ''totalAmount''"
  shows "(\<not> isDuplicate s0 (fingerprintOf P contextA) \<longrightarrow>
            processed_invoices s1 =
              (processed_invoices s0)(fingerprintOf P contextA \<mapsto>
                 \<lparr>pi_invoiceId = obj_get (ctx_invoice contextA) ''id'',
                  pi_vendor = obj_get (ctx_invoice contextA) ''vendor'',
                  pi_invoiceNumber = obj_get (ctx_invoice contextA) ''invoiceNumber'',
                  pi_totalAmount = js_or (obj_get (ctx_invoice contextA) ''totalAmount'') Null,
                  pi_processedAt = nowA\<rparr>)
            \<and> oc_reasoning contractA
                \<noteq> ''Duplicate invoice detected: matches fingerprint of previously processed invoice'')
         \<and> (isDuplicate s0 (fingerprintOf P contextA) \<longrightarrow> s1 = s0)
         \<and> processed_invoices s1 (fingerprintOf P contextA) \<noteq> None
         \<and> processed_invoices (run_calls P s1 calls) (fingerprintOf P contextB) \<noteq> None
         \<and> decision_of (decide P nowB (run_calls P s1 calls) contextB propsB)
             = Some (True, ''Duplicate invoice detected: matches fingerprint of previously processed invoice'')"
proof -
  have same: "fingerprintOf P contextB = fingerprintOf P contextA"
    by (simp add: fingerprintOf_def vendor number date total)
  have recorded: "isDuplicate s1 (fingerprintOf P contextA)"
    using first by (rule decide_store(1))
  then have later: "isDuplicate (run_calls P s1 calls) (fingerprintOf P contextB)"
    unfolding same by (rule run_calls_keep)
  then have flagged: "decision_of (decide P nowB (run_calls P s1 calls) contextB propsB)
      = Some (True, ''Duplicate invoice detected: matches fingerprint of previously processed invoice'')"
    by (rule decide_duplicate)
  from recorded later flagged decide_records [OF first] first_occurrence_not_flagged [OF first]
  show ?thesis
    unfolding isDuplicate_def by blast
qed

lemma first_submission_decision:
  "decision_of (decide example_platform 1 empty_store first_submission [])
     = Some (True, ''New vendor: no existing memory found, requires initial human review'')"
  unfolding decision_of_decide
  by (simp add: shouldEscalate_def example_not_duplicate first_submission_def)

lemma first_submission_fingerprint:
  "fingerprintOf example_platform first_submission = ''Supplier GmbH|A-001|2023-12-15|#''"
  by (simp add: fingerprintOf_def generateInvoiceFingerprint_def first_submission_def obj_get_def
      js_or_def example_platform_def Let_def)

theorem duplicate_flagged_from_second_occurrence_witness:
  "\<not> isDuplicate empty_store ''Supplier GmbH|A-001|2023-12-15|#''
   \<and> decision_of (decide example_platform 1 empty_store first_submission [])
       = Some (True, ''New vendor: no existing memory found, requires initial human review'')
   \<and> processed_invoices
         (run_call example_platform empty_store (Decide 1 first_submission []))
         ''Supplier GmbH|A-001|2023-12-15|#''
       = Some \<lparr>pi_invoiceId = Str ''INV-A-001'', pi_vendor = Str ''Supplier GmbH'',
               pi_invoiceNumber = Str ''A-001'', pi_totalAmount = Num 1000, pi_processedAt = 1\<rparr>
   \<and> decision_of
       (decide example_platform 9
          (run_calls example_platform
             (run_call example_platform empty_store (Decide 1 first_submission []))
             [RecordResolution 5 ''v-1-date'' ''INV-A-002'' ACCEPTED])
          second_submission [])
       = Some (True, ''Duplicate invoice detected: matches fingerprint of previously processed invoice'')"
proof -
  obtain contractA s1 where
    first: "decide example_platform 1 empty_store first_submission [] = Inr (contractA, s1)"
    using first_submission_decision by (auto simp: decision_of_def split: sum.splits)
  have step: "run_call example_platform empty_store (Decide 1 first_submission []) = s1"
    by (simp add: first)
  have shared:
    "obj_get (ctx_invoice second_submission) ''vendor'' = obj_get (ctx_invoice first_submission) ''vendor''"
    "obj_get (ctx_invoice second_submission) ''invoiceNumber''
       = obj_get (ctx_invoice first_submission) ''invoiceNumber''"
    "obj_get (ctx_invoice second_submission) ''date'' = obj_get (ctx_invoice first_submission) ''date''"
    "obj_get (ctx_invoice second_submission) ''totalAmount''
       = obj_get (ctx_invoice first_submission) ''totalAmount''"
    by (simp_all add: first_submission_def second_submission_def obj_get_def)
  have fresh: "\<not> isDuplicate empty_store (fingerprintOf example_platform first_submission)"
    by (rule example_not_duplicate)
  note facts = duplicate_flagged_from_second_occurrence
      [OF first shared, of "[RecordResolution 5 ''v-1-date'' ''INV-A-002'' ACCEPTED]" 9 "[]"]
  have row: "processed_invoices s1 (fingerprintOf example_platform first_submission)
      = Some \<lparr>pi_invoiceId = Str ''INV-A-001'', pi_vendor = Str ''Supplier GmbH'',
               pi_invoiceNumber = Str ''A-001'', pi_totalAmount = Num 1000, pi_processedAt = 1\<rparr>"
    unfolding facts [THEN conjunct1, THEN mp, OF fresh, THEN conjunct1]
    by (simp add: first_submission_def obj_get_def js_or_def)
  have flagged: "decision_of
       (decide example_platform 9
          (run_calls example_platform s1 [RecordResolution 5 ''v-1-date'' ''INV-A-002'' ACCEPTED])
          second_submission [])
       = Some (True, ''Duplicate invoice detected: matches fingerprint of previously processed invoice'')"
    using facts by (elim conjE)
  from fresh first_submission_decision row flagged show ?thesis
    unfolding step first_submission_fingerprint by (intro conjI)
qed

subsection \<open>Resolution memories\<close>

lemma slice_last_short: "length xs \<le> n \<Longrightarrow> slice_last n xs = xs"
  by (simp add: slice_last_def)

lemma length_slice_last: "length (slice_last n xs) \<le> n"
  by (simp add: slice_last_def)

lemma slice_last_snoc:
  "0 < n \<Longrightarrow> slice_last n (slice_last n xs @ [x]) = slice_last n (xs @ [x])"
  by (cases "length xs \<le> n") (auto simp: slice_last_def Suc_diff_le)

lemma get_after_save:
  "getResolutionMemory (saveResolutionMemory s m) rid
     = (if rid = ruleId m then m else getResolutionMemory s rid)"
  by (simp add: getResolutionMemory_def saveResolutionMemory_def)

lemma recordResolution_other:
  "ruleId (getResolutionMemory s rid) = rid \<Longrightarrow> rid' \<noteq> rid \<Longrightarrow>
   getResolutionMemory (recordResolution now s rid invoiceId outc) rid' = getResolutionMemory s rid'"
  by (simp add: recordResolution_def Let_def get_after_save)

lemma recordResolution_same:
  assumes "ruleId (getResolutionMemory s rid) = rid"
  shows "getResolutionMemory (recordResolution now s rid invoiceId outc) rid =
     (getResolutionMemory s rid)
       \<lparr>totalApplications := totalApplications (getResolutionMemory s rid) + 1,
        acceptedCount := acceptedCount (getResolutionMemory s rid) + (if outc = ACCEPTED then 1 else 0),
        rejectedCount := rejectedCount (getResolutionMemory s rid) + (if outc = REJECTED then 1 else 0),
        lastUsed := Some now,
        history := slice_last 100 (history (getResolutionMemory s rid) @
                     [\<lparr>h_invoiceId = invoiceId, h_outcome = outc, h_timestamp = now\<rparr>])\<rparr>"
  using assms
  by (cases outc) (simp_all add: recordResolution_def Let_def get_after_save slice_last_short)

lemma recordResolutions_snoc:
  "recordResolutions s (events @ [(now, rid, invoiceId, outc)])
     = recordResolution now (recordResolutions s events) rid invoiceId outc"
  by (simp add: recordResolutions_def)

lemma empty_default:
  "getResolutionMemory empty_store rid =
     \<lparr>ruleId = rid, totalApplications = 0, acceptedCount = 0, rejectedCount = 0,
      lastUsed = None, history = []\<rparr>"
  by (simp add: getResolutionMemory_def empty_store_def)

lemma recorded_memory:
  "ruleId (getResolutionMemory (recordResolutions empty_store events) rid) = rid
   \<and> totalApplications (getResolutionMemory (recordResolutions empty_store events) rid)
       = length (filter (\<lambda>(now, r, invoiceId, outc). r = rid) events)
   \<and> acceptedCount (getResolutionMemory (recordResolutions empty_store events) rid)
       = length (filter (\<lambda>(now, r, invoiceId, outc). r = rid \<and> outc = ACCEPTED) events)
   \<and> rejectedCount (getResolutionMemory (recordResolutions empty_store events) rid)
       = length (filter (\<lambda>(now, r, invoiceId, outc). r = rid \<and> outc = REJECTED) events)
   \<and> history (getResolutionMemory (recordResolutions empty_store events) rid)
       = slice_last 100 (map historyEntryOf (filter (\<lambda>(now, r, invoiceId, outc). r = rid) events))"
proof (induction events arbitrary: rid rule: rev_induct)
  case Nil
  show ?case
    by (simp add: recordResolutions_def empty_default slice_last_def)
next
  case (snoc event events)
  obtain now r invoiceId outc where event: "event = (now, r, invoiceId, outc)"
    by (cases event) auto
  let ?s = "recordResolutions empty_store events"
  have keyed: "ruleId (getResolutionMemory ?s r) = r"
    using snoc.IH [of r] by simp
  show ?case
  proof (cases "r = rid")
    case True
    show ?thesis
      using snoc.IH [of rid] keyed True
      by (simp add: event recordResolutions_snoc recordResolution_same slice_last_snoc
          historyEntryOf_def)
  next
    case False
    then have "rid \<noteq> r" by simp
    then show ?thesis
      using snoc.IH [of rid] recordResolution_other [OF keyed, of rid now invoiceId outc]
      by (simp add: event recordResolutions_snoc False)
  qed
qed

text \<open>
  C7. After any sequence of \<^verbatim>\<open>recordResolution\<close> calls on an initially empty store, the
  memory of every rule id has at most 100 history entries, namely the most recent 100 of
  the entries recorded for that id, in the order of recording, and its accepted and
  rejected counts together do not exceed its application count, which is the number of
  calls for that id. One call appends its entry and drops the oldest entries beyond 100.
  \<^verbatim>\<open>getResolutionMemory\<close> always returns a memory: for an id without a row, the
  all-zero default with empty history.
\<close>

theorem resolution_memory_bounded_fifo:
  "let m = getResolutionMemory (recordResolutions empty_store events) rid;
       mine = filter (\<lambda>(now, r, invoiceId, outc). r = rid) events
   in length (history m) \<le> 100
    \<and> history m = drop (length mine - 100) (map historyEntryOf mine)
    \<and> totalApplications m = length mine
    \<and> acceptedCount m + rejectedCount m \<le> totalApplications m
    \<and> (resolution_memories s rid = None \<longrightarrow>
         getResolutionMemory s rid =
           \<lparr>ruleId = rid, totalApplications = 0, acceptedCount = 0, rejectedCount = 0,
            lastUsed = None, history = []\<rparr>)
    \<and> (ruleId (getResolutionMemory s rid) = rid \<longrightarrow>
         history (getResolutionMemory (recordResolution now s rid invoiceId outc) rid)
           = drop (length (history (getResolutionMemory s rid)) + 1 - 100)
               (history (getResolutionMemory s rid)
                @ [\<lparr>h_invoiceId = invoiceId, h_outcome = outc, h_timestamp = now\<rparr>]))"
proof -
  note facts = recorded_memory [of events rid]
  have le: "length (filter (\<lambda>(now, r, invoiceId, outc). r = rid \<and> outc = ACCEPTED) events)
          + length (filter (\<lambda>(now, r, invoiceId, outc). r = rid \<and> outc = REJECTED) events)
          \<le> length (filter (\<lambda>(now, r, invoiceId, outc). r = rid) events)"
    by (induction events) auto
  have absent: "resolution_memories s rid = None \<longrightarrow>
         getResolutionMemory s rid =
           \<lparr>ruleId = rid, totalApplications = 0, acceptedCount = 0, rejectedCount = 0,
            lastUsed = None, history = []\<rparr>"
    by (simp add: getResolutionMemory_def)
  have step: "ruleId (getResolutionMemory s rid) = rid \<longrightarrow>
         history (getResolutionMemory (recordResolution now s rid invoiceId outc) rid)
           = drop (length (history (getResolutionMemory s rid)) + 1 - 100)
               (history (getResolutionMemory s rid)
                @ [\<lparr>h_invoiceId = invoiceId, h_outcome = outc, h_timestamp = now\<rparr>])"
    by (simp add: recordResolution_same slice_last_def)
  have bounded: "length (history (getResolutionMemory (recordResolutions empty_store events) rid))
                 \<le> 100"
    using facts by (simp add: length_slice_last)
  have fifo: "history (getResolutionMemory (recordResolutions empty_store events) rid)
      = drop (length (filter (\<lambda>(now, r, invoiceId, outc). r = rid) events) - 100)
          (map historyEntryOf (filter (\<lambda>(now, r, invoiceId, outc). r = rid) events))"
    using facts by (simp add: slice_last_def)
  show ?thesis
    unfolding Let_def using facts le absent step bounded fifo
    by simp
qed

theorem resolution_memory_bounded_fifo_witness:
  "resolution_memories empty_store ''v-1-serviceDate'' = None
   \<and> getResolutionMemory empty_store ''v-1-serviceDate'' =
       \<lparr>ruleId = ''v-1-serviceDate'', totalApplications = 0, acceptedCount = 0,
        rejectedCount = 0, lastUsed = None, history = []\<rparr>
   \<and> history (getResolutionMemory
         (recordResolutions empty_store
            [(1, ''v-1-serviceDate'', ''INV-A-002'', ACCEPTED),
             (2, ''v-1-poNumber'', ''INV-A-003'', ACCEPTED),
             (3, ''v-1-serviceDate'', ''INV-A-003'', REJECTED)]) ''v-1-serviceDate'')
     = [\<lparr>h_invoiceId = ''INV-A-002'', h_outcome = ACCEPTED, h_timestamp = 1\<rparr>,
        \<lparr>h_invoiceId = ''INV-A-003'', h_outcome = REJECTED, h_timestamp = 3\<rparr>]"
  using resolution_memory_bounded_fifo
    [of "[(1, ''v-1-serviceDate'', ''INV-A-002'', ACCEPTED),
          (2, ''v-1-poNumber'', ''INV-A-003'', ACCEPTED),
          (3, ''v-1-serviceDate'', ''INV-A-003'', REJECTED)]" "''v-1-serviceDate''" empty_store]
  unfolding Let_def
  by (simp add: empty_store_def historyEntryOf_def)

subsection \<open>Global correction rules\<close>

lemma str_includes_sublist: "str_includes s sub \<longleftrightarrow> sublist sub s"
  by (induction s) (simp_all add: sublist_Cons_right)

lemma includes_longer:
  "prefix short long \<Longrightarrow> str_includes s long \<Longrightarrow> str_includes s short"
  unfolding str_includes_sublist
  using prefix_imp_sublist sublist_order.order_trans by blast

lemma extractFieldFromAction_priority:
  "extractFieldFromAction P act =
     (if sublist ''tax'' (jsonStringify P act) then Some ''taxAmount''
      else if sublist ''net'' (jsonStringify P act) then Some ''netAmount''
      else if sublist ''total'' (jsonStringify P act) then Some ''totalAmount''
      else None)"
proof -
  have tax: "str_includes s ''taxAmount'' \<Longrightarrow> str_includes s ''tax''" for s
    by (rule includes_longer [of "''tax''" "''taxAmount''"]) simp_all
  have net: "str_includes s ''netAmount'' \<Longrightarrow> str_includes s ''net''" for s
    by (rule includes_longer [of "''net''" "''netAmount''"]) simp_all
  have total: "str_includes s ''totalAmount'' \<Longrightarrow> str_includes s ''total''" for s
    by (rule includes_longer [of "''total''" "''totalAmount''"]) simp_all
  show ?thesis
    unfolding extractFieldFromAction_def Let_def
    using tax net total by (auto simp: str_includes_sublist [symmetric])
qed

text \<open>
  The third pass tests the existing proposal against the stored confidence of the rule and
  writes the computed one: without a resolution memory for the rule, an existing proposal
  below the stored confidence is replaced by a candidate at 0.8 times the stored
  confidence, also when that is less than the confidence replaced.
\<close>

lemma map_get_map_set: "map_get (map_set m k v) k = Some v"
  by (simp add: map_get_def map_set_def map_of_replace map_add_def)

lemma applyCorrection_discounts:
  assumes "truthy (executeRule P (cm_triggerCondition correction) (Obj (ctx_invoice context)))"
    and "executeRule P (cm_action correction) (Obj (ctx_invoice context)) \<noteq> Null"
    and "executeRule P (cm_action correction) (Obj (ctx_invoice context)) \<noteq> Undefined"
    and "extractFieldFromAction P (cm_action correction) = Some field"
    and "map_get props field = Some existing"
    and "fc_confidence existing < cm_confidence correction"
    and "map_get (ctx_resolutionMemories context) (cm_id correction) = None"
  shows "map_option fc_confidence
           (map_get (fst (applyCorrection P now context (props, trail) correction)) field)
         = Some (cm_confidence correction * 0.8)"
  using assms
  by (simp add: applyCorrection_def Let_def map_get_map_set calculateConfidence_def)


subsection \<open>Failing rules\<close>

lemma applyCorrection_failing:
  "jsonLogicApply P (cm_triggerCondition correction) (Obj (ctx_invoice context)) = None
   \<or> jsonLogicApply P (cm_action correction) (Obj (ctx_invoice context)) = None \<Longrightarrow>
   applyCorrection P now context acc correction = acc"
  by (cases acc) (auto simp: applyCorrection_def executeRule_def Let_def)

lemma applyPattern_failing:
  "jsonLogicApply P (vp_logic pattern) (Obj (ctx_invoice context)) = None \<Longrightarrow>
   applyPattern P now context vendorMemory acc (field, pattern) = acc"
  by (cases acc) (auto simp: applyPattern_def executeRule_def Let_def)

text \<open>
  C6. Rule evaluation returns a value in every case: \<^verbatim>\<open>executeRule\<close> gives null when
  the interpreter throws; \<^verbatim>\<open>regexExtract\<close> gives null and \<^verbatim>\<open>regexTest\<close> false on a
  missing input or a pattern that does not compile; and a global correction or a vendor
  pattern whose evaluation throws leaves the passes of \<^verbatim>\<open>apply\<close> exactly as if the
  rule were not there, so the other rules and the invoice are processed as usual.
\<close>

theorem rule_failures_are_contained:
  "(jsonLogicApply P rule data = None \<longrightarrow> executeRule P rule data = Null)
   \<and> (\<not> truthy text \<or> \<not> truthy pattern \<or> newRegExp P (js_to_string P pattern) = None \<longrightarrow>
        regexExtract P pattern text groupIndex = Null \<and> \<not> regexTest P pattern text)
   \<and> (jsonLogicApply P (cm_triggerCondition correction) (Obj (ctx_invoice context)) = None
        \<or> jsonLogicApply P (cm_action correction) (Obj (ctx_invoice context)) = None \<longrightarrow>
        foldl (applyCorrection P now context) acc (before @ correction # after)
          = foldl (applyCorrection P now context) acc (before @ after))
   \<and> (jsonLogicApply P (vp_logic vendorPattern) (Obj (ctx_invoice context)) = None \<longrightarrow>
        foldl (applyPattern P now context vendorMemory) acc
            (earlier @ (field, vendorPattern) # later)
          = foldl (applyPattern P now context vendorMemory) acc (earlier @ later))"
  by (simp add: executeRule_def regexExtract_def regexTest_def applyCorrection_failing
      applyPattern_failing)

theorem rule_failures_are_contained_witness:
  "jsonLogicApply example_platform (cm_triggerCondition failing_correction)
       (Obj (ctx_invoice (example_context []))) = None
   \<and> foldl (applyCorrection example_platform 0 (example_context [])) ([], [])
         ([] @ failing_correction # [literal_correction])
       = foldl (applyCorrection example_platform 0 (example_context [])) ([], [])
           ([] @ [literal_correction])"
proof -
  have throws: "jsonLogicApply example_platform (cm_triggerCondition failing_correction)
       (Obj (ctx_invoice (example_context []))) = None"
    by (simp add: example_platform_def failing_correction_def)
  note contained = rule_failures_are_contained
      [of example_platform _ _ _ _ _ failing_correction "example_context []" 0 "([], [])"
          "[]" "[literal_correction]",
       THEN conjunct2, THEN conjunct2, THEN conjunct1, THEN mp, OF disjI1, OF throws]
  from throws contained show ?thesis by (rule conjI)
qed

subsection \<open>Induction without actionable changes\<close>

lemma set_map_set: "set (map_set m k v) \<subseteq> insert (k, v) (set m)"
  by (auto simp: map_set_def split: if_splits)

lemma extractChanges_from_patch:
  "(field, v) \<in> set (foldl (\<lambda>changes operation.
              if pop_op operation = Replace \<or> pop_op operation = Add
              then map_set changes (drop 1 (pop_path operation)) (pop_value operation)
              else changes) start patch) \<Longrightarrow>
   (field, v) \<in> set start
   \<or> (\<exists>operation \<in> set patch. (pop_op operation = Add \<or> pop_op operation = Replace)
         \<and> field = drop 1 (pop_path operation) \<and> v = pop_value operation)"
proof (induction patch arbitrary: start)
  case Nil
  then show ?case by simp
next
  case (Cons operation patch)
  let ?next = "if pop_op operation = Replace \<or> pop_op operation = Add
              then map_set start (drop 1 (pop_path operation)) (pop_value operation)
              else start"
  from Cons.prems Cons.IH [of ?next]
  consider "(field, v) \<in> set ?next"
    | "\<exists>operation \<in> set patch. (pop_op operation = Add \<or> pop_op operation = Replace)
         \<and> field = drop 1 (pop_path operation) \<and> v = pop_value operation"
    by auto
  then show ?case
  proof cases
    case 1
    then show ?thesis
      using set_map_set [of start "drop 1 (pop_path operation)" "pop_value operation"]
      by (auto split: if_splits)
  next
    case 2
    then show ?thesis by auto
  qed
qed

lemma induceChanges_unchanged:
  "\<forall>(field, newValue) \<in> set changes. strict_eq (getFieldValue (Obj systemOutput) field) newValue
   \<Longrightarrow> induceChanges S now systemOutput changes result = Inr result"
  by (induction changes) (auto simp: Let_def)

text \<open>
  C8. When the differ reports no operation for identical records, \<^verbatim>\<open>induceRules(x, x)\<close>
  returns both rule lists empty. More generally, when every add or replace operation of
  the patch carries a value strictly equal to the old value at its path, \<^verbatim>\<open>induceRules\<close>
  returns both rule lists empty, and returns normally.
\<close>

theorem induceRules_without_changes:
  "(createPatch P (Obj x) (Obj x) = [] \<longrightarrow>
      induceRules P S now x x = Inr \<lparr>vendorRules = [], correctionRules = []\<rparr>)
   \<and> ((\<forall>operation \<in> set (createPatch P (Obj systemOutput) (Obj humanCorrection)).
          pop_op operation = Add \<or> pop_op operation = Replace \<longrightarrow>
          strict_eq (getFieldValue (Obj systemOutput) (drop 1 (pop_path operation)))
            (pop_value operation)) \<longrightarrow>
      induceRules P S now systemOutput humanCorrection
        = Inr \<lparr>vendorRules = [], correctionRules = []\<rparr>)"
proof (intro conjI impI)
  assume "createPatch P (Obj x) (Obj x) = []"
  then show "induceRules P S now x x = Inr \<lparr>vendorRules = [], correctionRules = []\<rparr>"
    by (simp add: induceRules_def)
next
  let ?patch = "createPatch P (Obj systemOutput) (Obj humanCorrection)"
  assume same: "\<forall>operation \<in> set ?patch.
          pop_op operation = Add \<or> pop_op operation = Replace \<longrightarrow>
          strict_eq (getFieldValue (Obj systemOutput) (drop 1 (pop_path operation)))
            (pop_value operation)"
  have "\<forall>(field, newValue) \<in> set (extractChanges ?patch).
          strict_eq (getFieldValue (Obj systemOutput) field) newValue"
  proof (clarify)
    fix field newValue
    assume "(field, newValue) \<in> set (extractChanges ?patch)"
    then obtain operation where "operation \<in> set ?patch"
      "pop_op operation = Add \<or> pop_op operation = Replace"
      "field = drop 1 (pop_path operation)" "newValue = pop_value operation"
      unfolding extractChanges_def using extractChanges_from_patch [of field newValue "[]" ?patch]
      by auto
    with same show "strict_eq (getFieldValue (Obj systemOutput) field) newValue"
      by auto
  qed
  then have "induceChanges S now systemOutput (extractChanges ?patch)
               \<lparr>vendorRules = [], correctionRules = []\<rparr>
             = Inr \<lparr>vendorRules = [], correctionRules = []\<rparr>"
    by (rule induceChanges_unchanged)
  then show "induceRules P S now systemOutput humanCorrection
        = Inr \<lparr>vendorRules = [], correctionRules = []\<rparr>"
    by (simp add: induceRules_def Let_def)
qed

theorem induceRules_without_changes_witness:
  "createPatch example_platform (Obj (ctx_invoice dated_context)) (Obj (ctx_invoice dated_context)) = []
   \<and> induceRules example_platform idle_strategies 0 (ctx_invoice dated_context)
        (ctx_invoice dated_context) = Inr \<lparr>vendorRules = [], correctionRules = []\<rparr>
   \<and> strict_eq (getFieldValue (Obj (ctx_invoice (example_context []))) ''vendor'') (Str ''Parts AG'')
   \<and> induceRules (example_platform\<lparr>createPatch := (\<lambda>original modified. redundant_patch)\<rparr>)
        idle_strategies 0 (ctx_invoice (example_context [])) (ctx_invoice (example_context []))
       = Inr \<lparr>vendorRules = [], correctionRules = []\<rparr>"
proof -
  let ?P = "example_platform\<lparr>createPatch := (\<lambda>original modified. redundant_patch)\<rparr>"
  have empty: "createPatch example_platform (Obj (ctx_invoice dated_context))
                 (Obj (ctx_invoice dated_context)) = []"
    by (simp add: example_platform_def)
  have vendor: "strict_eq (getFieldValue (Obj (ctx_invoice (example_context []))) ''vendor'')
                  (Str ''Parts AG'')"
    by (simp add: getFieldValue_def split_on_def example_context_def obj_get_def)
  have same: "\<forall>operation \<in> set (createPatch ?P (Obj (ctx_invoice (example_context [])))
                                   (Obj (ctx_invoice (example_context [])))).
          pop_op operation = Add \<or> pop_op operation = Replace \<longrightarrow>
          strict_eq (getFieldValue (Obj (ctx_invoice (example_context [])))
                       (drop 1 (pop_path operation))) (pop_value operation)"
    using vendor by (simp add: redundant_patch_def)
  note identical = induceRules_without_changes
      [of example_platform "ctx_invoice dated_context" idle_strategies 0,
       THEN conjunct1, THEN mp, OF empty]
  note redundant = induceRules_without_changes
      [of ?P _ idle_strategies 0 "ctx_invoice (example_context [])"
          "ctx_invoice (example_context [])",
       THEN conjunct2, THEN mp, OF same]
  from empty identical vendor redundant show ?thesis by simp
qed

subsection \<open>Mapping induction and lookup\<close>

lemma fst_replace: "(fst \<circ> (\<lambda>(k', v'). if k' = k then (k', v) else (k', v'))) = fst"
  by (auto simp: fun_eq_iff)

lemma set_obj_insert_index:
  "set (map fst (obj_insert_index n k v obj)) = insert k (set (map fst obj))"
proof (induction obj)
  case Nil
  then show ?case by simp
next
  case (Cons entry obj)
  obtain k' v' where entry: "entry = (k', v')" by (cases entry)
  show ?case
  proof (cases "array_index k'")
    case None
    then show ?thesis by (simp add: entry)
  next
    case (Some m)
    with Cons show ?thesis
      by (cases "m < n") (auto simp: entry)
  qed
qed

lemma distinct_obj_insert_index:
  "distinct (map fst obj) \<Longrightarrow> k \<notin> set (map fst obj) \<Longrightarrow>
   distinct (map fst (obj_insert_index n k v obj))"
proof (induction obj)
  case Nil
  then show ?case by simp
next
  case (Cons entry obj)
  obtain k' v' where entry: "entry = (k', v')" by (cases entry)
  show ?case
    using Cons set_obj_insert_index [of n k v obj]
    by (auto simp: entry split: option.splits)
qed

lemma distinct_obj_set:
  "distinct (map fst obj) \<Longrightarrow> distinct (map fst (obj_set obj k v))"
  by (auto simp: obj_set_def obj_has_def fst_replace distinct_obj_insert_index
      map_of_eq_None_iff split: option.splits)

lemma map_of_assign_member:
  "map_of (assign_member obj k v) = (if k = ''__proto__'' then map_of obj else (map_of obj)(k \<mapsto> v))"
  by (simp add: assign_member_def map_of_obj_set)

lemma distinct_assign_member:
  "distinct (map fst obj) \<Longrightarrow> distinct (map fst (assign_member obj k v))"
  by (simp add: assign_member_def distinct_obj_set)

lemma token_table:
  "map_of (foldl (\<lambda>m token. if length token > 3 then assign_member m token sku else m)
             table tokens) k
     = (if k \<in> set tokens \<and> length k > 3 \<and> k \<noteq> ''__proto__'' then Some sku
        else map_of table k)"
  by (induction tokens arbitrary: table) (auto simp: map_of_assign_member)

lemma token_table_distinct:
  "distinct (map fst table) \<Longrightarrow>
   distinct (map fst (foldl (\<lambda>m token. if length token > 3 then assign_member m token sku else m)
                        table tokens))"
  by (induction tokens arbitrary: table) (auto simp: distinct_assign_member)

lemma letters_not_ws:
  "\<forall>c \<in> set upperCaseLetters \<union> set lowerCaseLetters. \<not> is_ws c"
  by (simp add: upperCaseLetters_def lowerCaseLetters_def is_ws_def)

lemma is_ws_toLowerChar: "is_ws (toLowerChar c) = is_ws c"
proof (cases "map_of (zip upperCaseLetters lowerCaseLetters) c")
  case None
  then show ?thesis by (simp add: toLowerChar_def)
next
  case (Some lower)
  then have "(c, lower) \<in> set (zip upperCaseLetters lowerCaseLetters)"
    by (rule map_of_SomeD)
  then have "c \<in> set upperCaseLetters" "lower \<in> set lowerCaseLetters"
    by (auto elim: in_set_zipE)
  with letters_not_ws Some show ?thesis
    by (auto simp: toLowerChar_def)
qed

lemma split_ws_toLowerCase:
  "split_ws (toLowerCase s) = map toLowerCase (split_ws s)"
proof (induction s rule: split_ws.induct)
  case (1 s)
  have drop_eq: "dropWhile (\<lambda>c. \<not> is_ws c) (map toLowerChar s)
                 = map toLowerChar (dropWhile (\<lambda>c. \<not> is_ws c) s)"
    by (simp add: dropWhile_map comp_def is_ws_toLowerChar)
  have take_eq: "takeWhile (\<lambda>c. \<not> is_ws c) (map toLowerChar s)
                 = map toLowerChar (takeWhile (\<lambda>c. \<not> is_ws c) s)"
    by (simp add: takeWhile_map comp_def is_ws_toLowerChar)
  show ?case
  proof (cases "dropWhile (\<lambda>c. \<not> is_ws c) s")
    case Nil
    have lower: "split_ws (map toLowerChar s) = [map toLowerChar s]"
      by (subst split_ws.simps) (simp only: drop_eq Nil list.map list.case)
    have plain: "split_ws s = [s]"
      by (subst split_ws.simps) (simp only: Nil list.case)
    show ?thesis
      by (simp add: lower plain toLowerCase_def)
  next
    case (Cons r rest)
    have rest_eq: "dropWhile is_ws (map toLowerChar (r # rest))
                   = map toLowerChar (dropWhile is_ws (r # rest))"
      by (simp only: dropWhile_map comp_def is_ws_toLowerChar)
    have IH: "split_ws (map toLowerChar (dropWhile is_ws (r # rest)))
          = map (map toLowerChar) (split_ws (dropWhile is_ws (r # rest)))"
      using "1.IH" [OF Cons] by (simp only: toLowerCase_def)
    have lower: "split_ws (map toLowerChar s)
        = map toLowerChar (takeWhile (\<lambda>c. \<not> is_ws c) s)
          # map (map toLowerChar) (split_ws (dropWhile is_ws (r # rest)))"
      by (subst split_ws.simps)
         (simp only: drop_eq Cons list.map list.case take_eq rest_eq [simplified list.map] IH)
    have plain: "split_ws s
        = takeWhile (\<lambda>c. \<not> is_ws c) s # split_ws (dropWhile is_ws (r # rest))"
      by (subst split_ws.simps) (simp only: Cons list.case)
    show ?thesis
      by (simp add: lower plain toLowerCase_def)
  qed
qed

lemma find_first:
  "i < length es \<Longrightarrow> Q (es ! i) \<Longrightarrow> \<forall>j<i. \<not> Q (es ! j) \<Longrightarrow> find Q es = Some (es ! i)"
  by (auto simp: find_Some_iff)

lemma find_nothing: "\<forall>j<length es. \<not> Q (es ! j) \<Longrightarrow> find Q es = None"
  by (auto simp: find_None_iff in_set_conv_nth)

text \<open>
  C9 (as amended). For a non-empty description \<open>d\<close> and a truthy SKU, mapping induction
  emits a MAP pattern whose lookup table has unique keys and maps exactly the lower-cased
  description and the lower-cased white-space-delimited tokens of \<open>d\<close> longer than 3
  characters, each to the SKU, except that the key \<^verbatim>\<open>__proto__\<close> never enters the
  table. For a non-empty description and a table, \<^verbatim>\<open>mapDescription\<close> returns the value
  of the first entry, in the order in which \<^verbatim>\<open>Object.entries\<close> enumerates the table,
  whose lower-cased key equals the trimmed lower-cased description; if there is none, the
  value of the first entry in that order whose lower-cased key is a substring of it; and
  null if no key matches. A missing description or table gives null.
\<close>

theorem mapping_induction_and_lookup:
  "(d \<noteq> [] \<and> truthy sku \<longrightarrow>
      (\<exists>table.
         induceMapping now field (Str d) sku =
           Inr (Some \<lparr>vp_ruleType = MAP,
                      vp_logic = createMapRule table (replace_first ''.sku'' ''.description'' field),
                      vp_confidence = 0.85, vp_sampleEvidence = Some d,
                      vp_createdAt = now, vp_lastUsed = None\<rparr>)
         \<and> distinct (map fst table)
         \<and> (\<forall>k. map_of table k =
                (if k \<noteq> ''__proto__''
                    \<and> (k = toLowerCase d
                         \<or> (k \<in> toLowerCase ` set (split_ws d) \<and> length k > 3))
                 then Some sku else None))))
   \<and> (x \<noteq> [] \<and> truthy mapping \<longrightarrow>
        (let normalized = trim (toLowerCase x);
             es = entries mapping;
             exact = (\<lambda>i. normalized = toLowerCase (fst (es ! i)));
             partial = (\<lambda>i. sublist (toLowerCase (fst (es ! i))) normalized)
         in (\<forall>i<length es. exact i \<and> (\<forall>j<i. \<not> exact j) \<longrightarrow>
               mapDescription (Str x) mapping = Inr (snd (es ! i)))
          \<and> ((\<forall>j<length es. \<not> exact j) \<longrightarrow>
               (\<forall>i<length es. partial i \<and> (\<forall>j<i. \<not> partial j) \<longrightarrow>
                  mapDescription (Str x) mapping = Inr (snd (es ! i))))
          \<and> ((\<forall>j<length es. \<not> exact j \<and> \<not> partial j) \<longrightarrow>
               mapDescription (Str x) mapping = Inr Null)))
   \<and> (\<not> truthy description \<or> \<not> truthy mapping \<longrightarrow>
        mapDescription description mapping = Inr Null)"
proof (intro conjI impI)
  assume given: "d \<noteq> [] \<and> truthy sku"
  define table where
    "table = foldl (\<lambda>m token. if length token > 3 then assign_member m token sku else m)
               (assign_member [] (toLowerCase d) sku) (split_ws (toLowerCase d))"
  have induced: "induceMapping now field (Str d) sku =
           Inr (Some \<lparr>vp_ruleType = MAP,
                      vp_logic = createMapRule table (replace_first ''.sku'' ''.description'' field),
                      vp_confidence = 0.85, vp_sampleEvidence = Some d,
                      vp_createdAt = now, vp_lastUsed = None\<rparr>)"
    using given by (simp add: induceMapping_def Let_def table_def)
  have keys: "distinct (map fst table)"
    unfolding table_def by (rule token_table_distinct) (simp add: distinct_assign_member)
  have lookup: "map_of table k =
                (if k \<noteq> ''__proto__''
                    \<and> (k = toLowerCase d
                         \<or> (k \<in> toLowerCase ` set (split_ws d) \<and> length k > 3))
                 then Some sku else None)" for k
    unfolding table_def token_table split_ws_toLowerCase
    by (auto simp: map_of_assign_member)
  from induced keys lookup
  show "\<exists>table.
         induceMapping now field (Str d) sku =
           Inr (Some \<lparr>vp_ruleType = MAP,
                      vp_logic = createMapRule table (replace_first ''.sku'' ''.description'' field),
                      vp_confidence = 0.85, vp_sampleEvidence = Some d,
                      vp_createdAt = now, vp_lastUsed = None\<rparr>)
         \<and> distinct (map fst table)
         \<and> (\<forall>k. map_of table k =
                (if k \<noteq> ''__proto__''
                    \<and> (k = toLowerCase d
                         \<or> (k \<in> toLowerCase ` set (split_ws d) \<and> length k > 3))
                 then Some sku else None))"
    by blast
next
  assume given: "x \<noteq> [] \<and> truthy mapping"
  define normalized where "normalized = trim (toLowerCase x)"
  define es where "es = entries mapping"
  define isExact where "isExact = (\<lambda>(key :: string, v :: jsval). normalized = toLowerCase key)"
  define isPartial where
    "isPartial = (\<lambda>(key :: string, v :: jsval). str_includes normalized (toLowerCase key))"
  have unfold: "mapDescription (Str x) mapping =
      (case find isExact es of
         Some (key, v) \<Rightarrow> Inr v
       | None \<Rightarrow> (case find isPartial es of Some (key, v) \<Rightarrow> Inr v | None \<Rightarrow> Inr Null))"
    unfolding normalized_def es_def isExact_def isPartial_def mapDescription_def Let_def
    using given by simp
  have exact_at: "isExact (es ! i) = (normalized = toLowerCase (fst (es ! i)))" for i
    by (simp add: isExact_def case_prod_beta)
  have partial_at: "isPartial (es ! i) = sublist (toLowerCase (fst (es ! i))) normalized" for i
    by (simp add: isPartial_def case_prod_beta str_includes_sublist)
  have first: "mapDescription (Str x) mapping = Inr (snd (es ! i))"
    if "i < length es" "normalized = toLowerCase (fst (es ! i))"
       "\<forall>j<i. normalized \<noteq> toLowerCase (fst (es ! j))" for i
  proof -
    have "find isExact es = Some (es ! i)"
      using that by (intro find_first) (simp_all add: exact_at)
    then show ?thesis
      by (simp add: unfold case_prod_beta)
  qed
  have second: "mapDescription (Str x) mapping = Inr (snd (es ! i))"
    if "\<forall>j<length es. normalized \<noteq> toLowerCase (fst (es ! j))"
       "i < length es" "sublist (toLowerCase (fst (es ! i))) normalized"
       "\<forall>j<i. \<not> sublist (toLowerCase (fst (es ! j))) normalized" for i
  proof -
    have "find isExact es = None"
      using that(1) by (intro find_nothing) (simp add: exact_at)
    moreover have "find isPartial es = Some (es ! i)"
      using that(2-4) by (intro find_first) (simp_all add: partial_at)
    ultimately show ?thesis
      by (simp add: unfold case_prod_beta)
  qed
  have third: "mapDescription (Str x) mapping = Inr Null"
    if "\<forall>j<length es. normalized \<noteq> toLowerCase (fst (es ! j))
                      \<and> \<not> sublist (toLowerCase (fst (es ! j))) normalized"
  proof -
    have "find isExact es = None"
      using that by (intro find_nothing) (simp add: exact_at)
    moreover have "find isPartial es = None"
      using that by (intro find_nothing) (simp add: partial_at)
    ultimately show ?thesis
      by (simp add: unfold)
  qed
  show "let normalized = trim (toLowerCase x);
             es = entries mapping;
             exact = (\<lambda>i. normalized = toLowerCase (fst (es ! i)));
             partial = (\<lambda>i. sublist (toLowerCase (fst (es ! i))) normalized)
         in (\<forall>i<length es. exact i \<and> (\<forall>j<i. \<not> exact j) \<longrightarrow>
               mapDescription (Str x) mapping = Inr (snd (es ! i)))
          \<and> ((\<forall>j<length es. \<not> exact j) \<longrightarrow>
               (\<forall>i<length es. partial i \<and> (\<forall>j<i. \<not> partial j) \<longrightarrow>
                  mapDescription (Str x) mapping = Inr (snd (es ! i))))
          \<and> ((\<forall>j<length es. \<not> exact j \<and> \<not> partial j) \<longrightarrow>
               mapDescription (Str x) mapping = Inr Null)"
    unfolding Let_def normalized_def [symmetric] es_def [symmetric]
    using first second third by blast
next
  assume "\<not> truthy description \<or> \<not> truthy mapping"
  then show "mapDescription description mapping = Inr Null"
    by (auto simp: mapDescription_def)
qed

lemma freight_tokens:
  "toLowerCase ''Seefracht Hamburg-NY'' = ''seefracht hamburg-ny''"
  "toLowerCase ` set (split_ws ''Seefracht Hamburg-NY'') = {''seefracht'', ''hamburg-ny''}"
  by (simp_all add: split_ws.simps is_ws_def toLowerCase_def toLowerChar_def upperCaseLetters_def
      lowerCaseLetters_def)

lemma rotterdam_normalized:
  "trim (toLowerCase ''Seefracht Rotterdam-Boston'') = ''seefracht rotterdam-boston''"
  by (simp add: trim_def is_ws_def toLowerCase_def toLowerChar_def upperCaseLetters_def
      lowerCaseLetters_def)

lemma lower_keys:
  "toLowerCase ''seefracht hamburg-ny'' = ''seefracht hamburg-ny''"
  "toLowerCase ''seefracht'' = ''seefracht''"
  by (simp_all add: toLowerCase_def toLowerChar_def upperCaseLetters_def lowerCaseLetters_def)

theorem mapping_induction_and_lookup_witness:
  "(\<exists>table.
      induceMapping 0 ''lineItems/0/sku'' (Str ''Seefracht Hamburg-NY'') (Str ''FREIGHT'') =
        Inr (Some \<lparr>vp_ruleType = MAP,
                   vp_logic = createMapRule table ''lineItems/0/sku'',
                   vp_confidence = 0.85, vp_sampleEvidence = Some ''Seefracht Hamburg-NY'',
                   vp_createdAt = 0, vp_lastUsed = None\<rparr>)
      \<and> map_of table ''seefracht hamburg-ny'' = Some (Str ''FREIGHT'')
      \<and> map_of table ''seefracht'' = Some (Str ''FREIGHT'')
      \<and> map_of table ''hamburg-ny'' = Some (Str ''FREIGHT'')
      \<and> map_of table ''hamburg'' = None)
   \<and> mapDescription (Str ''Seefracht Rotterdam-Boston'')
         (Obj [(''seefracht hamburg-ny'', Str ''FREIGHT''), (''seefracht'', Str ''FREIGHT'')])
       = Inr (Str ''FREIGHT'')"
proof -
  note inst = mapping_induction_and_lookup
      [of "''Seefracht Hamburg-NY''" "Str ''FREIGHT''" 0 "''lineItems/0/sku''"
          "''Seefracht Rotterdam-Boston''"
          "Obj [(''seefracht hamburg-ny'', Str ''FREIGHT''), (''seefracht'', Str ''FREIGHT'')]"]
  have given: "''Seefracht Hamburg-NY'' \<noteq> [] \<and> truthy (Str ''FREIGHT'')"
    by simp
  obtain table where
    induced: "induceMapping 0 ''lineItems/0/sku'' (Str ''Seefracht Hamburg-NY'') (Str ''FREIGHT'') =
        Inr (Some \<lparr>vp_ruleType = MAP,
                   vp_logic = createMapRule table
                                (replace_first ''.sku'' ''.description'' ''lineItems/0/sku''),
                   vp_confidence = 0.85, vp_sampleEvidence = Some ''Seefracht Hamburg-NY'',
                   vp_createdAt = 0, vp_lastUsed = None\<rparr>)"
    and lookup: "\<And>k. map_of table k =
                (if k \<noteq> ''__proto__''
                    \<and> (k = toLowerCase ''Seefracht Hamburg-NY''
                         \<or> (k \<in> toLowerCase ` set (split_ws ''Seefracht Hamburg-NY'')
                             \<and> length k > 3))
                 then Some (Str ''FREIGHT'') else None)"
    using inst [THEN conjunct1, THEN mp, OF given] by blast
  have first: "\<exists>table.
      induceMapping 0 ''lineItems/0/sku'' (Str ''Seefracht Hamburg-NY'') (Str ''FREIGHT'') =
        Inr (Some \<lparr>vp_ruleType = MAP,
                   vp_logic = createMapRule table ''lineItems/0/sku'',
                   vp_confidence = 0.85, vp_sampleEvidence = Some ''Seefracht Hamburg-NY'',
                   vp_createdAt = 0, vp_lastUsed = None\<rparr>)
      \<and> map_of table ''seefracht hamburg-ny'' = Some (Str ''FREIGHT'')
      \<and> map_of table ''seefracht'' = Some (Str ''FREIGHT'')
      \<and> map_of table ''hamburg-ny'' = Some (Str ''FREIGHT'')
      \<and> map_of table ''hamburg'' = None"
    using induced by (intro exI [of _ table]) (simp add: lookup freight_tokens)
  have given2: "''Seefracht Rotterdam-Boston'' \<noteq> []
                \<and> truthy (Obj [(''seefracht hamburg-ny'', Str ''FREIGHT''),
                                (''seefracht'', Str ''FREIGHT'')])"
    by simp
  note substring_rule = inst [THEN conjunct2, THEN conjunct1, THEN mp, OF given2,
      unfolded Let_def rotterdam_normalized, THEN conjunct2, THEN conjunct1, THEN mp,
      THEN spec, of 1, THEN mp]
  have no_exact: "\<forall>j<length (entries (Obj [(''seefracht hamburg-ny'', Str ''FREIGHT''),
                                              (''seefracht'', Str ''FREIGHT'')])).
       ''seefracht rotterdam-boston''
         \<noteq> toLowerCase (fst (entries (Obj [(''seefracht hamburg-ny'', Str ''FREIGHT''),
                                           (''seefracht'', Str ''FREIGHT'')]) ! j))"
    by (simp add: less_Suc_eq lower_keys)
  have second: "mapDescription (Str ''Seefracht Rotterdam-Boston'')
         (Obj [(''seefracht hamburg-ny'', Str ''FREIGHT''), (''seefracht'', Str ''FREIGHT'')])
       = Inr (Str ''FREIGHT'')"
    using substring_rule [OF no_exact]
    by (simp add: lower_keys str_includes_sublist [symmetric])
  from first second show ?thesis by (rule conjI)
qed

text \<open>
  C9 as stated fails three times. For an empty corrected SKU no pattern is emitted. For the
  description \<^verbatim>\<open>__proto__\<close> the emitted table is empty, since the assignment creates
  no own property. And a table that received the key \<open>widget\<close> before the key
  \<open>2000\<close> enumerates \<open>2000\<close> first, so for the description \<open>Widget 2000\<close> the
  lookup returns the value of \<open>2000\<close>, not that of the key inserted first.
\<close>

theorem empty_sku_and_numeric_key_counterexample:
  "induceMapping 0 ''lineItems/0/sku'' (Str ''Seefracht Hamburg-NY'') (Str []) = Inr None
   \<and> induceMapping 0 ''lineItems/0/sku'' (Str ''__proto__'') (Str ''FREIGHT'') =
        Inr (Some \<lparr>vp_ruleType = MAP,
                   vp_logic = createMapRule [] ''lineItems/0/sku'',
                   vp_confidence = 0.85, vp_sampleEvidence = Some ''__proto__'',
                   vp_createdAt = 0, vp_lastUsed = None\<rparr>)
   \<and> mapDescription (Str ''Widget 2000'')
         (Obj (obj_set (obj_set [] ''widget'' (Str ''PARTS'')) ''2000'' (Str ''MODEL'')))
       = Inr (Str ''MODEL'')"
proof -
  have lower: "toLowerCase ''Widget 2000'' = ''widget 2000''"
    by (simp add: toLowerCase_def toLowerChar_def upperCaseLetters_def lowerCaseLetters_def)
  have trimmed: "trim ''widget 2000'' = ''widget 2000''"
    by (simp add: trim_def is_ws_def)
  have object: "obj_set (obj_set [] ''widget'' (Str ''PARTS'')) ''2000'' (Str ''MODEL'')
     = [(''2000'', Str ''MODEL''), (''widget'', Str ''PARTS'')]"
    by (simp add: obj_set_def obj_has_def array_index_def is_digit_def digits_value_def)
  have lookup: "mapDescription (Str ''Widget 2000'')
         (Obj (obj_set (obj_set [] ''widget'' (Str ''PARTS'')) ''2000'' (Str ''MODEL'')))
       = Inr (Str ''MODEL'')"
    unfolding object
    by (simp add: mapDescription_def lower trimmed)
       (simp add: toLowerCase_def toLowerChar_def upperCaseLetters_def lowerCaseLetters_def)
  have empty: "induceMapping 0 ''lineItems/0/sku'' (Str ''Seefracht Hamburg-NY'') (Str [])
               = Inr None"
    by (simp add: induceMapping_def)
  have proto_lower: "toLowerCase ''__proto__'' = ''__proto__''"
    by (simp add: toLowerCase_def toLowerChar_def upperCaseLetters_def lowerCaseLetters_def)
  have proto_tokens: "split_ws ''__proto__'' = [''__proto__'']"
    by (simp add: split_ws.simps is_ws_def)
  have proto: "induceMapping 0 ''lineItems/0/sku'' (Str ''__proto__'') (Str ''FREIGHT'') =
        Inr (Some \<lparr>vp_ruleType = MAP,
                   vp_logic = createMapRule [] ''lineItems/0/sku'',
                   vp_confidence = 0.85, vp_sampleEvidence = Some ''__proto__'',
                   vp_createdAt = 0, vp_lastUsed = None\<rparr>)"
    by (simp add: induceMapping_def Let_def proto_lower proto_tokens assign_member_def)
  from empty proto lookup show ?thesis by (intro conjI)
qed

end
